theory Spec2Isabelle
  imports Complex_Main "HOL-Library.Char_ord" "HOL-Library.List_Lexorder" "HOL-Library.AList"
begin

section \<open>Payments: risk scoring, routing, explanation cache, ledger\<close>

text \<open>
  Embedding of \<open>PaymentsService\<close> (payments.service.ts). JavaScript numbers are modelled
  as exact rationals: an addition here is the exact sum where the host rounds the sum to
  the nearest double, so a score may differ from the host's in its last binary digit.
  Timestamps are integer milliseconds since the
  epoch (an ISO string written by \<open>toISOString\<close> and read back by \<open>new Date\<close> is the same
  millisecond value), strings as ASCII character lists. Record fields carry a prefix
  where the source reuses a field name in several types.
\<close>

subsection \<open>Data\<close>

record ChargeDto =
  dto_amount :: rat
  dto_currency :: string
  dto_source :: string
  dto_email :: string
  ipCountry :: string
  billingCountry :: string

datatype TxStatus = Success | Blocked

record Transaction =
  tx_transactionId :: string
  tx_provider :: "string option"
  tx_status :: TxStatus
  tx_riskScore :: rat
  tx_explanation :: string
  tx_timestamp :: int
  tx_amount :: rat
  tx_currency :: string
  tx_email :: string

record FraudConfig =
  amountThreshold :: rat
  amountRisk :: rat
  suspiciousDomains :: "string list"
  domainRisk :: rat
  velocityThreshold :: rat
  velocityRisk :: rat
  geoMismatchRisk :: rat

text \<open>
  The service object: \<open>riskBlockThreshold\<close> is \<open>config.fraud.riskBlockThreshold\<close>,
  \<open>fraudConfig\<close> the parsed JSON file; both are fixed at construction. \<open>transactions\<close>
  is the in-memory ledger and \<open>llmCache\<close> the explanation cache.
\<close>

record PaymentsService =
  riskBlockThreshold :: rat
  fraudConfig :: FraudConfig
  transactions :: "Transaction list"
  llmCache :: "string \<rightharpoonup> string"

text \<open>
  What one call of \<open>charge\<close> reads from outside the service: the eight characters of the
  uuid, the clock at the velocity check, the value of \<open>Math.random()\<close>, the text that
  \<open>getLLMExplanation\<close> resolves to (collaborator output after post-processing, or its
  fallback sentence), and the clock when the transaction record is built.
\<close>

record ChargeEnv =
  uuid8 :: string
  clockNow :: int
  random :: rat
  llmReply :: string
  clockStamp :: int

subsection \<open>String helpers of the host language\<close>

definition toLowerChar :: "char \<Rightarrow> char" where
  "toLowerChar c =
     (let n = (of_char c :: nat) in if 65 \<le> n \<and> n \<le> 90 then char_of (n + 32) else c)"

definition toLowerCase :: "string \<Rightarrow> string" where
  "toLowerCase s = map toLowerChar s"

definition startsWith :: "string \<Rightarrow> string \<Rightarrow> bool" where
  "startsWith s p = (take (length p) s = p)"

definition endsWith :: "string \<Rightarrow> string \<Rightarrow> bool" where
  "endsWith s p = (length p \<le> length s \<and> drop (length s - length p) s = p)"

text \<open>\<open>s.split(c)\<close> for a one-character separator: never empty.\<close>

fun splitOn :: "char \<Rightarrow> string \<Rightarrow> string list" where
  "splitOn c [] = [[]]"
| "splitOn c (x # xs) =
     (if x = c then [] # splitOn c xs
      else (case splitOn c xs of [] \<Rightarrow> [[x]] | p # ps \<Rightarrow> (x # p) # ps))"

fun join :: "string \<Rightarrow> string list \<Rightarrow> string" where
  "join sep [] = []"
| "join sep [x] = x"
| "join sep (x # y # ys) = x @ sep @ join sep (y # ys)"

definition digitChar :: "nat \<Rightarrow> char" where
  "digitChar d = char_of (48 + d)"

fun showNat :: "nat \<Rightarrow> string" where
  "showNat n = (if n < 10 then [digitChar n] else showNat (n div 10) @ [digitChar (n mod 10)])"

declare showNat.simps [simp del]

text \<open>
  \<open>x.toFixed(2)\<close>: the sign first, then the magnitude rounded to hundredths with ties
  upwards (below 10^21, where the host switches to exponent notation).
\<close>

definition hundredths :: "rat \<Rightarrow> nat" where
  "hundredths x = nat \<lfloor>\<bar>x\<bar> * 100 + 1 / 2\<rfloor>"

definition toFixed2 :: "rat \<Rightarrow> string" where
  "toFixed2 x =
     (let n = hundredths x in
      (if x < 0 then ''-'' else '''') @ showNat (n div 100) @ ''.''
        @ [digitChar (n mod 100 div 10), digitChar (n mod 10)])"

text \<open>\<open>Number(x.toFixed(2))\<close>: the value the two-decimal text denotes.\<close>

definition roundTo2 :: "rat \<Rightarrow> rat" where
  "roundTo2 x = (if x < 0 then - 1 else 1) * of_nat (hundredths x) / 100"

subsection \<open>The heuristics of \<open>charge\<close>\<close>

definition largeAmount :: "FraudConfig \<Rightarrow> ChargeDto \<Rightarrow> bool" where
  "largeAmount cfg dto = (dto_amount dto > amountThreshold cfg)"

text \<open>\<open>chargeDto.email.split('@')[1]?.toLowerCase() || ''\<close>\<close>

definition emailDomain :: "ChargeDto \<Rightarrow> string" where
  "emailDomain dto =
     (case splitOn (CHR ''@'') (dto_email dto) of
        _ # d # _ \<Rightarrow> toLowerCase d
      | _ \<Rightarrow> [])"

definition domainMatches :: "string \<Rightarrow> string \<Rightarrow> bool" where
  "domainMatches ed domain =
     (let domainLower = toLowerCase domain in
      if startsWith domainLower ''.'' then endsWith ed domainLower
      else ed = domainLower \<or> endsWith ed (''.'' @ domainLower))"

definition isSuspiciousDomain :: "FraudConfig \<Rightarrow> ChargeDto \<Rightarrow> bool" where
  "isSuspiciousDomain cfg dto = list_ex (domainMatches (emailDomain dto)) (suspiciousDomains cfg)"

definition oneHourAgo :: "int \<Rightarrow> int" where
  "oneHourAgo now = now - 60 * 60 * 1000"

definition recentCharges :: "Transaction list \<Rightarrow> int \<Rightarrow> ChargeDto \<Rightarrow> Transaction list" where
  "recentCharges ledger now dto =
     filter (\<lambda>t. tx_email t = dto_email dto \<and> tx_timestamp t > oneHourAgo now) ledger"

definition velocity :: "FraudConfig \<Rightarrow> Transaction list \<Rightarrow> int \<Rightarrow> ChargeDto \<Rightarrow> bool" where
  "velocity cfg ledger now dto =
     (of_nat (length (recentCharges ledger now dto)) \<ge> velocityThreshold cfg)"

definition geoMismatch :: "ChargeDto \<Rightarrow> bool" where
  "geoMismatch dto =
     (ipCountry dto \<noteq> [] \<and> billingCountry dto \<noteq> [] \<and> ipCountry dto \<noteq> billingCountry dto)"

definition russianIP :: "ChargeDto \<Rightarrow> bool" where
  "russianIP dto = (ipCountry dto = ''RU'')"

text \<open>
  The variable \<open>riskScore\<close> after each of the five \<open>if\<close> statements, in the source's
  order: it starts at 0.1 and each heuristic that triggers adds its increment to the
  value so far. \<open>riskSum\<close> is its value before the cap.
\<close>

definition scoreAfterAmount :: "FraudConfig \<Rightarrow> ChargeDto \<Rightarrow> rat" where
  "scoreAfterAmount cfg dto =
     (if largeAmount cfg dto then 1 / 10 + amountRisk cfg else 1 / 10)"

definition scoreAfterDomain :: "FraudConfig \<Rightarrow> ChargeDto \<Rightarrow> rat" where
  "scoreAfterDomain cfg dto =
     (if isSuspiciousDomain cfg dto then scoreAfterAmount cfg dto + domainRisk cfg
      else scoreAfterAmount cfg dto)"

definition scoreAfterVelocity ::
  "FraudConfig \<Rightarrow> Transaction list \<Rightarrow> int \<Rightarrow> ChargeDto \<Rightarrow> rat" where
  "scoreAfterVelocity cfg ledger now dto =
     (if velocity cfg ledger now dto then scoreAfterDomain cfg dto + velocityRisk cfg
      else scoreAfterDomain cfg dto)"

definition scoreAfterGeo ::
  "FraudConfig \<Rightarrow> Transaction list \<Rightarrow> int \<Rightarrow> ChargeDto \<Rightarrow> rat" where
  "scoreAfterGeo cfg ledger now dto =
     (if geoMismatch dto then scoreAfterVelocity cfg ledger now dto + geoMismatchRisk cfg
      else scoreAfterVelocity cfg ledger now dto)"

definition riskSum :: "FraudConfig \<Rightarrow> Transaction list \<Rightarrow> int \<Rightarrow> ChargeDto \<Rightarrow> rat" where
  "riskSum cfg ledger now dto =
     (if russianIP dto then scoreAfterGeo cfg ledger now dto + 4 / 10
      else scoreAfterGeo cfg ledger now dto)"

definition explanationParts ::
  "FraudConfig \<Rightarrow> Transaction list \<Rightarrow> int \<Rightarrow> ChargeDto \<Rightarrow> string list" where
  "explanationParts cfg ledger now dto =
       (if largeAmount cfg dto then [''large amount''] else [])
     @ (if isSuspiciousDomain cfg dto then [''suspicious email domain''] else [])
     @ (if velocity cfg ledger now dto then [''multiple charges in short time''] else [])
     @ (if geoMismatch dto then [''geolocation mismatch''] else [])
     @ (if russianIP dto then [''Russian IP address''] else [])"

text \<open>\<open>riskScore = Math.min(riskScore, 1)\<close>\<close>

definition riskScore :: "FraudConfig \<Rightarrow> Transaction list \<Rightarrow> int \<Rightarrow> ChargeDto \<Rightarrow> rat" where
  "riskScore cfg ledger now dto = min (riskSum cfg ledger now dto) 1"

subsection \<open>Routing, cache key and the two halves of \<open>charge\<close>\<close>

text \<open>
  Routing: below the block threshold the call draws a provider with \<open>Math.random()\<close>,
  otherwise \<open>provider\<close> keeps its initial \<open>null\<close> (here \<open>None\<close>).
\<close>

definition route :: "rat \<Rightarrow> rat \<Rightarrow> rat \<Rightarrow> string option \<times> TxStatus" where
  "route threshold score rnd =
     (if score < threshold then (Some (if rnd < 1 / 2 then ''stripe'' else ''paypal''), Success)
      else (None, Blocked))"

text \<open>A template literal prints \<open>null\<close> as the four letters.\<close>

definition providerText :: "string option \<Rightarrow> string" where
  "providerText p = (case p of None \<Rightarrow> ''null'' | Some name \<Rightarrow> name)"

definition getLLMCacheKey :: "string option \<Rightarrow> rat \<Rightarrow> string list \<Rightarrow> string" where
  "getLLMCacheKey provider score reasons =
     providerText provider @ ''|'' @ toFixed2 score @ ''|'' @ join '','' (sort reasons)"

text \<open>
  \<open>charge\<close> is an async function with a single suspension point, the \<open>await\<close> of
  \<open>getLLMExplanation\<close> on a cache miss. \<open>prepareCharge\<close> is the code before the cache lookup;
  \<open>Pending\<close> holds the locals that are live across the suspension (\<open>reasons.sort()\<close> has
  sorted \<open>explanationParts\<close> in place by then); \<open>finishCharge\<close> is the code after the
  explanation is known: it builds the record and pushes it on the ledger.
\<close>

record Pending =
  pd_transactionId :: string
  pd_provider :: "string option"
  pd_status :: TxStatus
  pd_riskScore :: rat
  pd_reasons :: "string list"
  pd_llmKey :: string
  pd_recentCount :: nat
  pd_dto :: ChargeDto

definition prepareCharge :: "PaymentsService \<Rightarrow> ChargeEnv \<Rightarrow> ChargeDto \<Rightarrow> Pending" where
  "prepareCharge svc env dto =
     (let cfg = fraudConfig svc;
          ledger = transactions svc;
          score = riskScore cfg ledger (clockNow env) dto;
          parts = explanationParts cfg ledger (clockNow env) dto;
          (provider, status) = route (riskBlockThreshold svc) score (random env)
      in \<lparr> pd_transactionId = ''txn_'' @ uuid8 env,
           pd_provider = provider,
           pd_status = status,
           pd_riskScore = score,
           pd_reasons = sort parts,
           pd_llmKey = getLLMCacheKey provider score parts,
           pd_recentCount = length (recentCharges ledger (clockNow env) dto),
           pd_dto = dto \<rparr>)"

definition finishCharge ::
  "PaymentsService \<Rightarrow> Pending \<Rightarrow> string \<Rightarrow> int \<Rightarrow> Transaction \<times> PaymentsService" where
  "finishCharge svc p explanation stamp =
     (let transaction =
            \<lparr> tx_transactionId = pd_transactionId p,
              tx_provider = pd_provider p,
              tx_status = pd_status p,
              tx_riskScore = roundTo2 (pd_riskScore p),
              tx_explanation = explanation,
              tx_timestamp = stamp,
              tx_amount = dto_amount (pd_dto p),
              tx_currency = dto_currency (pd_dto p),
              tx_email = dto_email (pd_dto p) \<rparr>
      in (transaction, svc\<lparr>transactions := transactions svc @ [transaction]\<rparr>))"

datatype ChargeStep = Returned Transaction PaymentsService | Awaiting Pending

text \<open>
  Up to the first suspension: on a cache hit the call runs to its end without yielding,
  on a miss it is left waiting for the explanation and has changed nothing yet.
\<close>

definition charge_begin :: "PaymentsService \<Rightarrow> ChargeEnv \<Rightarrow> ChargeDto \<Rightarrow> ChargeStep" where
  "charge_begin svc env dto =
     (let p = prepareCharge svc env dto in
      case llmCache svc (pd_llmKey p) of
        Some cached \<Rightarrow> (case finishCharge svc p cached (clockStamp env) of (tx, svc') \<Rightarrow> Returned tx svc')
      | None \<Rightarrow> Awaiting p)"

text \<open>
  After the suspension, on whatever state the service has by then:
  \<open>llmCache.set(llmKey, explanation)\<close>, then the record is built and pushed.
\<close>

definition charge_resume ::
  "PaymentsService \<Rightarrow> Pending \<Rightarrow> string \<Rightarrow> int \<Rightarrow> Transaction \<times> PaymentsService" where
  "charge_resume svc p explanation stamp =
     finishCharge (svc\<lparr>llmCache := (llmCache svc)(pd_llmKey p \<mapsto> explanation)\<rparr>) p explanation stamp"

text \<open>A call that no other handler interleaves with.\<close>

definition charge :: "PaymentsService \<Rightarrow> ChargeEnv \<Rightarrow> ChargeDto \<Rightarrow> Transaction \<times> PaymentsService" where
  "charge svc env dto =
     (case charge_begin svc env dto of
        Returned tx svc' \<Rightarrow> (tx, svc')
      | Awaiting p \<Rightarrow> charge_resume svc p (llmReply env) (clockStamp env))"

definition getTransactions :: "PaymentsService \<Rightarrow> Transaction list" where
  "getTransactions svc = transactions svc"

text \<open>Calls handled one after the other, each to its end; the returned records in call order.\<close>

fun chargeAll ::
  "PaymentsService \<Rightarrow> (ChargeEnv \<times> ChargeDto) list \<Rightarrow> Transaction list \<times> PaymentsService" where
  "chargeAll svc [] = ([], svc)"
| "chargeAll svc ((env, dto) # rest) =
     (case charge svc env dto of
        (tx, svc') \<Rightarrow> (case chargeAll svc' rest of (txs, svc'') \<Rightarrow> (tx # txs, svc'')))"

subsection \<open>Calls that overlap\<close>

text \<open>
  What the service sees of calls that interleave at the suspension point. \<open>Start\<close>: a call
  begins; on a cache hit it runs to its end at once, on a miss it is left waiting and the
  service is unchanged. \<open>Resume\<close>: a waiting call gets its explanation and completes on the
  state the service has by then. A call that runs alone is a \<open>Start\<close> followed, on a miss,
  by the \<open>Resume\<close> of its own pending locals.
\<close>

datatype Event = Start ChargeEnv ChargeDto | Resume Pending string int

fun handle :: "PaymentsService \<Rightarrow> Event \<Rightarrow> PaymentsService" where
  "handle svc (Start env dto) =
     (case charge_begin svc env dto of Returned tx svc' \<Rightarrow> svc' | Awaiting p \<Rightarrow> svc)"
| "handle svc (Resume p explanation stamp) = snd (charge_resume svc p explanation stamp)"

text \<open>The event is the completion of a waiting call whose cache key is \<open>k\<close>.\<close>

fun resumesKey :: "string \<Rightarrow> Event \<Rightarrow> bool" where
  "resumesKey k (Start env dto) = False"
| "resumesKey k (Resume p explanation stamp) = (pd_llmKey p = k)"

section \<open>Subscriptions: store, schedule, billing run\<close>

text \<open>
  Embedding of \<open>SubscriptionsService\<close> (subscriptions.service.ts) and of the per-tick part
  of \<open>BillingSchedulerService\<close> (billing-scheduler.service.ts).
\<close>

subsection \<open>Data\<close>

datatype Interval = Weekly | Monthly | Yearly

datatype SubStatus = Active | Cancelled

record Subscription =
  donorId :: string
  sub_amount :: rat
  sub_currency :: string
  sub_source :: string
  sub_email :: string
  interval :: Interval
  campaignDescription :: string
  tags :: "string list"
  summary :: string
  status :: SubStatus
  createdAt :: int
  lastBilledAt :: "int option"
  nextBillingAt :: int
  successfulCharges :: nat
  failedCharges :: nat

record CreateSubscriptionDto =
  c_donorId :: string
  c_amount :: rat
  c_currency :: string
  c_source :: string
  c_email :: string
  c_interval :: Interval
  c_campaignDescription :: string

datatype DonationStatus = DonationSuccess | DonationFailed

record DonationTransaction =
  don_transactionId :: string
  don_donorId :: string
  don_amount :: rat
  don_currency :: string
  don_status :: DonationStatus
  don_provider :: string
  don_errorMessage :: "string option"
  don_timestamp :: int
  don_campaignDescription :: string
  don_tags :: "string list"
  don_summary :: string

record LLMCampaignAnalysis =
  an_tags :: "string list"
  an_summary :: string

text \<open>
  \<open>LLMService\<close>: its cache, and a trace of the descriptions \<open>analyzeCampaign\<close> has been
  called with (the trace is not a field of the class; it makes the call observable).
\<close>

record LLMService =
  analysisCache :: "string \<rightharpoonup> LLMCampaignAnalysis"
  analyzeCalls :: "string list"

text \<open>
  The \<open>Map\<close> of subscriptions is an association list in insertion order; a reference to a
  stored object is the key under which the \<open>Map\<close> holds it. \<open>donations\<close> is the class's
  \<open>transactions\<close> array.
\<close>

record SubscriptionsService =
  subscriptions :: "(string \<times> Subscription) list"
  donations :: "DonationTransaction list"
  llmService :: LLMService

text \<open>The exceptions the service throws, each with the donor id its message names.\<close>

datatype SubError =
    AlreadyExists string
  | NotFound string
  | AlreadyCancelled string

definition errorMessage :: "SubError \<Rightarrow> string" where
  "errorMessage e =
     (case e of
        AlreadyExists d \<Rightarrow> ''Subscription already exists for donor: '' @ d
      | NotFound d \<Rightarrow> ''Subscription not found for donor: '' @ d
      | AlreadyCancelled d \<Rightarrow> ''Subscription already cancelled for donor: '' @ d)"

subsection \<open>Host date arithmetic\<close>

text \<open>
  The methods of the host's \<open>Date\<close> that \<open>calculateNextBillingDate\<close> calls, on millisecond
  timestamps. They belong to the runtime and depend on its time zone, so the service is
  modelled over any such record; \<open>utcDate\<close> below is the instance of a process in UTC.
\<close>

record HostDate =
  getDate :: "int \<Rightarrow> int"
  setDate :: "int \<Rightarrow> int \<Rightarrow> int"
  getMonth :: "int \<Rightarrow> int"
  setMonth :: "int \<Rightarrow> int \<Rightarrow> int"
  getFullYear :: "int \<Rightarrow> int"
  setFullYear :: "int \<Rightarrow> int \<Rightarrow> int"

definition msPerDay :: int where
  "msPerDay = 86400000"

text \<open>Day number to (year, month from 0, day of month from 1), proleptic Gregorian.\<close>

definition civilFromDays :: "int \<Rightarrow> int \<times> int \<times> int" where
  "civilFromDays d =
     (let z = d + 719468;
          era = z div 146097;
          doe = z mod 146097;
          yoe = (doe - doe div 1460 + doe div 36524 - doe div 146096) div 365;
          doy = doe - (365 * yoe + yoe div 4 - yoe div 100);
          mp = (5 * doy + 2) div 153;
          dom = doy - (153 * mp + 2) div 5 + 1;
          m = (if mp < 10 then mp + 2 else mp - 10);
          y = yoe + era * 400 + (if m \<le> 1 then 1 else 0)
      in (y, m, dom))"

text \<open>
  \<open>MakeDay(year, month, date)\<close>: months outside 0..11 carry into the year, days outside
  the month carry into the neighbouring months.
\<close>

definition makeDay :: "int \<Rightarrow> int \<Rightarrow> int \<Rightarrow> int" where
  "makeDay year month date =
     (let ym = year + month div 12;
          mn = month mod 12;
          y = (if mn \<le> 1 then ym - 1 else ym);
          era = y div 400;
          yoe = y mod 400;
          doy = (153 * (if mn > 1 then mn - 2 else mn + 10) + 2) div 5;
          doe = yoe * 365 + yoe div 4 - yoe div 100 + doy
      in era * 146097 + doe - 719468 + date - 1)"

definition makeDate :: "int \<Rightarrow> int \<Rightarrow> int" where
  "makeDate day time = day * msPerDay + time"

definition utcDate :: HostDate where
  "utcDate =
     \<lparr> getDate = (\<lambda>t. snd (snd (civilFromDays (t div msPerDay)))),
       setDate = (\<lambda>t d. case civilFromDays (t div msPerDay) of
                    (y, m, _) \<Rightarrow> makeDate (makeDay y m d) (t mod msPerDay)),
       getMonth = (\<lambda>t. fst (snd (civilFromDays (t div msPerDay)))),
       setMonth = (\<lambda>t m. case civilFromDays (t div msPerDay) of
                    (y, _, d) \<Rightarrow> makeDate (makeDay y m d) (t mod msPerDay)),
       getFullYear = (\<lambda>t. fst (civilFromDays (t div msPerDay))),
       setFullYear = (\<lambda>t y. case civilFromDays (t div msPerDay) of
                    (_, m, d) \<Rightarrow> makeDate (makeDay y m d) (t mod msPerDay)) \<rparr>"

text \<open>
  The \<open>default\<close> branch of the source's \<open>switch\<close> throws on an unknown interval; the
  declared type (and the \<open>IsIn\<close> validator of the DTO) has only these three values.
\<close>

definition calculateNextBillingDate :: "HostDate \<Rightarrow> int \<Rightarrow> Interval \<Rightarrow> int" where
  "calculateNextBillingDate host fromDate iv =
     (case iv of
        Weekly \<Rightarrow> setDate host fromDate (getDate host fromDate + 7)
      | Monthly \<Rightarrow> setMonth host fromDate (getMonth host fromDate + 1)
      | Yearly \<Rightarrow> setFullYear host fromDate (getFullYear host fromDate + 1))"

subsection \<open>Campaign analysis cache\<close>

definition isSpace :: "char \<Rightarrow> bool" where
  "isSpace c = (c \<in> set [CHR '' '', CHR 0x09, CHR 0x0A, CHR 0x0B, CHR 0x0C, CHR 0x0D])"

text \<open>\<open>replace(/\s+/g, ' ')\<close>: every maximal run of white space becomes one blank.\<close>

function collapseSpaces :: "string \<Rightarrow> string" where
  "collapseSpaces [] = []"
| "collapseSpaces (c # cs) =
     (if isSpace c then CHR '' '' # collapseSpaces (dropWhile isSpace cs)
      else c # collapseSpaces cs)"
  by pat_completeness auto
termination
  by (relation "measure length") (auto simp: le_imp_less_Suc length_dropWhile_le)

definition trim :: "string \<Rightarrow> string" where
  "trim s = rev (dropWhile isSpace (rev (dropWhile isSpace s)))"

definition getCacheKey :: "string \<Rightarrow> string" where
  "getCacheKey description = trim (collapseSpaces (toLowerCase description))"

text \<open>
  \<open>analyzeCampaign\<close>: a cached analysis is returned as it is; otherwise \<open>fresh\<close>, the
  analysis the call arrives at on a miss (collaborator output after sanitising, or the
  keyword fallback), is stored under the key and returned.
\<close>

definition analyzeCampaign ::
  "LLMService \<Rightarrow> LLMCampaignAnalysis \<Rightarrow> string \<Rightarrow> LLMCampaignAnalysis \<times> LLMService" where
  "analyzeCampaign llm fresh description =
     (let cacheKey = getCacheKey description;
          called = llm\<lparr>analyzeCalls := analyzeCalls llm @ [description]\<rparr>
      in case analysisCache llm cacheKey of
           Some cached \<Rightarrow> (cached, called)
         | None \<Rightarrow> (fresh, called\<lparr>analysisCache := (analysisCache llm)(cacheKey \<mapsto> fresh)\<rparr>))"

subsection \<open>Store operations\<close>

text \<open>
  What one call of \<open>createSubscription\<close> reads from outside: the analysis a cache miss
  would produce, and the clock. The call is modelled as running alone from its duplicate
  check to its write (its only suspension point is the awaited analysis in between).
\<close>

record CreateEnv =
  freshAnalysis :: LLMCampaignAnalysis
  createClock :: int

definition createSubscription ::
  "HostDate \<Rightarrow> SubscriptionsService \<Rightarrow> CreateEnv \<Rightarrow> CreateSubscriptionDto
     \<Rightarrow> (SubError + Subscription) \<times> SubscriptionsService" where
  "createSubscription host svc env dto =
     (if map_of (subscriptions svc) (c_donorId dto) \<noteq> None
      then (Inl (AlreadyExists (c_donorId dto)), svc)
      else
        (case analyzeCampaign (llmService svc) (freshAnalysis env) (c_campaignDescription dto) of
           (llmAnalysis, llm') \<Rightarrow>
             (let now = createClock env;
                  next = calculateNextBillingDate host now (c_interval dto);
                  subscription =
                    \<lparr> donorId = c_donorId dto,
                      sub_amount = c_amount dto,
                      sub_currency = c_currency dto,
                      sub_source = c_source dto,
                      sub_email = c_email dto,
                      interval = c_interval dto,
                      campaignDescription = c_campaignDescription dto,
                      tags = an_tags llmAnalysis,
                      summary = an_summary llmAnalysis,
                      status = Active,
                      createdAt = now,
                      lastBilledAt = None,
                      nextBillingAt = next,
                      successfulCharges = 0,
                      failedCharges = 0 \<rparr>
              in (Inr subscription,
                  svc\<lparr>subscriptions := AList.update (c_donorId dto) subscription (subscriptions svc),
                      llmService := llm'\<rparr>))))"

definition cancelSubscription ::
  "SubscriptionsService \<Rightarrow> string \<Rightarrow> (SubError + Subscription) \<times> SubscriptionsService" where
  "cancelSubscription svc d =
     (case map_of (subscriptions svc) d of
        None \<Rightarrow> (Inl (NotFound d), svc)
      | Some subscription \<Rightarrow>
          if status subscription = Cancelled then (Inl (AlreadyCancelled d), svc)
          else (Inr (subscription\<lparr>status := Cancelled\<rparr>),
                svc\<lparr>subscriptions :=
                      AList.map_entry d (\<lambda>sub. sub\<lparr>status := Cancelled\<rparr>) (subscriptions svc)\<rparr>))"

definition getSubscription :: "SubscriptionsService \<Rightarrow> string \<Rightarrow> Subscription option" where
  "getSubscription svc d = map_of (subscriptions svc) d"

text \<open>
  The due query, at clock value \<open>now\<close>. Each returned object comes with its reference,
  the key of its entry.
\<close>

definition getSubscriptionsDueForBilling ::
  "SubscriptionsService \<Rightarrow> int \<Rightarrow> (string \<times> Subscription) list" where
  "getSubscriptionsDueForBilling svc now =
     filter (\<lambda>(k, sub). status sub = Active \<and> nextBillingAt sub \<le> now) (subscriptions svc)"

definition updateBillingSchedule :: "HostDate \<Rightarrow> int \<Rightarrow> Subscription \<Rightarrow> Subscription" where
  "updateBillingSchedule host now sub =
     sub\<lparr>lastBilledAt := Some now,
         nextBillingAt := calculateNextBillingDate host now (interval sub)\<rparr>"

subsection \<open>Billing one subscription\<close>

text \<open>
  Where an exception may strike while a subscription is billed. \<open>InnerFault\<close> is thrown
  inside the \<open>try\<close> block of \<open>processBilling\<close>: before the record is stored, after it is
  stored, or after the counter is updated; its \<open>catch\<close> handler then runs. \<open>OuterFault\<close>
  is thrown by \<open>processBilling\<close> before its \<open>try\<close> block, so the promise rejects and the
  \<open>catch\<close> handler of \<open>processSubscriptionBilling\<close> runs.
\<close>

datatype FaultPoint = BeforeStore | AfterStore | AfterCount

datatype Fault = NoFault | InnerFault FaultPoint | OuterFault

record BillingEnv =
  b_uuid8 :: string
  b_random1 :: rat
  b_random2 :: rat
  b_clockTx :: int
  b_clockCatch :: int
  b_clockUpdate :: int
  b_fault :: Fault

definition donationRecord ::
  "string \<Rightarrow> Subscription \<Rightarrow> DonationStatus \<Rightarrow> string \<Rightarrow> string option \<Rightarrow> int
     \<Rightarrow> DonationTransaction" where
  "donationRecord tid sub st provider err stamp =
     \<lparr> don_transactionId = tid,
       don_donorId = donorId sub,
       don_amount = sub_amount sub,
       don_currency = sub_currency sub,
       don_status = st,
       don_provider = provider,
       don_errorMessage = err,
       don_timestamp = stamp,
       don_campaignDescription = campaignDescription sub,
       don_tags = tags sub,
       don_summary = summary sub \<rparr>"

text \<open>\<open>None\<close>: the promise rejects. Otherwise the returned record, the object and the log.\<close>

definition processBilling ::
  "BillingEnv \<Rightarrow> Subscription \<times> DonationTransaction list
     \<Rightarrow> (DonationTransaction \<times> Subscription \<times> DonationTransaction list) option" where
  "processBilling env objhist =
     (case objhist of (sub, hist) \<Rightarrow>
      let transactionId = ''don_'' @ b_uuid8 env;
          isSuccess = (b_random1 env > 1 / 10);
          provider = (if b_random2 env < 1 / 2 then ''stripe'' else ''paypal'');
          transaction =
            donationRecord transactionId sub
              (if isSuccess then DonationSuccess else DonationFailed) provider
              (if isSuccess then None else Some ''Payment processing failed'') (b_clockTx env);
          counted =
            (if isSuccess then sub\<lparr>successfulCharges := successfulCharges sub + 1\<rparr>
             else sub\<lparr>failedCharges := failedCharges sub + 1\<rparr>)
      in case b_fault env of
           NoFault \<Rightarrow> Some (transaction, counted, hist @ [transaction])
         | OuterFault \<Rightarrow> None
         | InnerFault point \<Rightarrow>
             (case (case point of
                      BeforeStore \<Rightarrow> (sub, hist)
                    | AfterStore \<Rightarrow> (sub, hist @ [transaction])
                    | AfterCount \<Rightarrow> (counted, hist @ [transaction])) of
                (sub1, hist1) \<Rightarrow>
                  let failedTransaction =
                        donationRecord transactionId sub1 DonationFailed ''unknown''
                          (Some ''Internal processing error'') (b_clockCatch env)
                  in Some (failedTransaction,
                           sub1\<lparr>failedCharges := failedCharges sub1 + 1\<rparr>,
                           hist1 @ [failedTransaction])))"

definition processSubscriptionBilling ::
  "HostDate \<Rightarrow> BillingEnv \<Rightarrow> Subscription \<times> DonationTransaction list
     \<Rightarrow> Subscription \<times> DonationTransaction list" where
  "processSubscriptionBilling host env objhist =
     (case processBilling env objhist of
        Some (transaction, sub', hist') \<Rightarrow>
          (updateBillingSchedule host (b_clockUpdate env) sub', hist')
      | None \<Rightarrow>
          (case objhist of (sub, hist) \<Rightarrow>
             (updateBillingSchedule host (b_clockUpdate env)
                (sub\<lparr>failedCharges := failedCharges sub + 1\<rparr>), hist)))"

text \<open>The same, on the object that the reference \<open>k\<close> points to in the store.\<close>

definition billStored ::
  "HostDate \<Rightarrow> BillingEnv \<Rightarrow> SubscriptionsService \<Rightarrow> string \<Rightarrow> SubscriptionsService" where
  "billStored host env svc k =
     (case map_of (subscriptions svc) k of
        None \<Rightarrow> svc
      | Some sub \<Rightarrow>
          (case processSubscriptionBilling host env (sub, donations svc) of
             (sub', hist') \<Rightarrow>
               svc\<lparr>subscriptions := AList.map_entry k (\<lambda>_. sub') (subscriptions svc),
                   donations := hist'\<rparr>))"

subsection \<open>The billing run\<close>

text \<open>
  The \<open>for\<close> loop of \<open>chunkArray\<close>, with its counter and accumulator. \<open>None\<close>: the loop
  does not end (a chunk size of zero on a non-empty array).
\<close>

partial_function (option) chunkLoop ::
  "'a list \<Rightarrow> nat \<Rightarrow> nat \<Rightarrow> 'a list list \<Rightarrow> 'a list list option" where
  "chunkLoop array chunkSize i chunks =
     (if i < length array
      then chunkLoop array chunkSize (i + chunkSize) (chunks @ [take chunkSize (drop i array)])
      else Some chunks)"

declare chunkLoop.simps [code]

definition chunkArray :: "'a list \<Rightarrow> nat \<Rightarrow> 'a list list option" where
  "chunkArray array chunkSize = chunkLoop array chunkSize 0 []"

text \<open>
  One batch. The members of a batch work on different objects, and the records they push
  are pushed in member order before any schedule is updated, so handling the members one
  after the other gives the same store and the same log.
\<close>

definition processBatch ::
  "HostDate \<Rightarrow> (string \<Rightarrow> BillingEnv) \<Rightarrow> SubscriptionsService \<Rightarrow> (string \<times> Subscription) list
     \<Rightarrow> SubscriptionsService" where
  "processBatch host envOf svc batch =
     foldl (\<lambda>s entry. billStored host (envOf (fst entry)) s (fst entry)) svc batch"

text \<open>One tick, at clock value \<open>now\<close> for the due query. \<open>None\<close>: the tick does not end.\<close>

definition processDueSubscriptions ::
  "HostDate \<Rightarrow> (string \<Rightarrow> BillingEnv) \<Rightarrow> int \<Rightarrow> SubscriptionsService
     \<Rightarrow> SubscriptionsService option" where
  "processDueSubscriptions host envOf now svc =
     (let dueSubscriptions = getSubscriptionsDueForBilling svc now in
      if dueSubscriptions = [] then Some svc
      else
        (case chunkArray dueSubscriptions 5 of
           None \<Rightarrow> None
         | Some batches \<Rightarrow> Some (foldl (processBatch host envOf) svc batches)))"

section \<open>Schedule invariant\<close>

text \<open>
  The invariant as the specification words it: the next due time is the billing interval
  after the last billing, or after creation while the subscription was never billed.
\<close>

definition scheduleInvariant :: "HostDate \<Rightarrow> Subscription \<Rightarrow> bool" where
  "scheduleInvariant host sub =
     (nextBillingAt sub =
        calculateNextBillingDate host
          (case lastBilledAt sub of None \<Rightarrow> createdAt sub | Some t \<Rightarrow> t) (interval sub))"

definition storeInvariant :: "HostDate \<Rightarrow> SubscriptionsService \<Rightarrow> bool" where
  "storeInvariant host svc =
     list_all (\<lambda>entry. scheduleInvariant host (snd entry)) (subscriptions svc)"

text \<open>The object under reference \<open>k\<close> was last billed at \<open>c\<close> and is next due one interval later.\<close>

definition rescheduled :: "HostDate \<Rightarrow> int \<Rightarrow> SubscriptionsService \<Rightarrow> string \<Rightarrow> bool" where
  "rescheduled host c svc k =
     (case map_of (subscriptions svc) k of
        None \<Rightarrow> False
      | Some sub \<Rightarrow>
          lastBilledAt sub = Some c
          \<and> nextBillingAt sub = calculateNextBillingDate host c (interval sub))"

section \<open>Example inputs\<close>

text \<open>
  The fraud configuration of the README's table (the JSON file itself is outside the
  sources), a fresh service, and requests in the style of the unit tests.
\<close>

definition exampleConfig :: FraudConfig where
  "exampleConfig =
     \<lparr> amountThreshold = 1000, amountRisk = 3 / 10,
       suspiciousDomains = [''test.com'', ''.ru''], domainRisk = 3 / 10,
       velocityThreshold = 3, velocityRisk = 1 / 4, geoMismatchRisk = 2 / 10 \<rparr>"

definition exampleService :: PaymentsService where
  "exampleService =
     \<lparr> riskBlockThreshold = 1 / 2, fraudConfig = exampleConfig,
       transactions = [], llmCache = Map.empty \<rparr>"

definition riskyDto :: ChargeDto where
  "riskyDto =
     \<lparr> dto_amount = 2000, dto_currency = ''USD'', dto_source = ''tok'',
       dto_email = ''fraud@test.com'', ipCountry = ''RU'', billingCountry = ''US'' \<rparr>"

definition plainDto :: ChargeDto where
  "plainDto =
     \<lparr> dto_amount = 100, dto_currency = ''USD'', dto_source = ''tok'',
       dto_email = ''user@example.com'', ipCountry = ''US'', billingCountry = ''US'' \<rparr>"

definition otherDto :: ChargeDto where
  "otherDto =
     \<lparr> dto_amount = 250, dto_currency = ''EUR'', dto_source = ''tok2'',
       dto_email = ''other@example.org'', ipCountry = ''DE'', billingCountry = ''DE'' \<rparr>"

definition envA :: ChargeEnv where
  "envA =
     \<lparr> uuid8 = ''0a1b2c3d'', clockNow = 1700000000000, random = 1 / 4,
       llmReply = ''Routed to stripe because nothing looked unusual.'',
       clockStamp = 1700000000900 \<rparr>"

definition envB :: ChargeEnv where
  "envB =
     \<lparr> uuid8 = ''4e5f6a7b'', clockNow = 1700000000200, random = 1 / 5,
       llmReply = ''Low risk payment sent to stripe.'',
       clockStamp = 1700000001500 \<rparr>"

text \<open>A ledger entry for \<open>plainDto\<close>'s email, stamped \<open>stamp\<close>.\<close>

definition priorCharge :: "int \<Rightarrow> Transaction" where
  "priorCharge stamp =
     \<lparr> tx_transactionId = ''txn_00000000'', tx_provider = Some ''stripe'', tx_status = Success,
       tx_riskScore = 1 / 10, tx_explanation = ''ok'', tx_timestamp = stamp,
       tx_amount = 100, tx_currency = ''USD'', tx_email = ''user@example.com'' \<rparr>"



text \<open>A configuration file with a negative increment.\<close>

definition negativeConfig :: FraudConfig where
  "negativeConfig = exampleConfig\<lparr>amountRisk := - 1\<rparr>"

definition negativeService :: PaymentsService where
  "negativeService = exampleService\<lparr>fraudConfig := negativeConfig\<rparr>"

definition largeDto :: ChargeDto where
  "largeDto = plainDto\<lparr>dto_amount := 2000\<rparr>"

text \<open>
  Two calls that overlap: both start on \<open>exampleService\<close> and miss the cache; the first
  resumes with its reply, then the second with its own.
\<close>

definition overlapFirst :: "Transaction \<times> PaymentsService" where
  "overlapFirst =
     charge_resume exampleService (prepareCharge exampleService envA plainDto)
       (llmReply envA) (clockStamp envA)"

definition overlapSecond :: "Transaction \<times> PaymentsService" where
  "overlapSecond =
     charge_resume (snd overlapFirst) (prepareCharge exampleService envB otherDto)
       (llmReply envB) (clockStamp envB)"

text \<open>
  Events after the first of the overlapping calls has completed: a blocked request starts,
  misses the cache and later resumes with its own text.
\<close>

definition laterEvents :: "Event list" where
  "laterEvents =
     [Start envA riskyDto,
      Resume (prepareCharge (snd overlapFirst) envA riskyDto) ''Blocked: several risk signals.''
        1700000002000]"

text \<open>
  A store with one subscription due, one cancelled and overdue, one not yet due, all
  created on 2024-01-31 at midnight UTC.
\<close>

definition exampleSub ::
  "string \<Rightarrow> Interval \<Rightarrow> SubStatus \<Rightarrow> int \<Rightarrow> int \<Rightarrow> Subscription" where
  "exampleSub d iv st created next =
     \<lparr> donorId = d, sub_amount = 25, sub_currency = ''USD'', sub_source = ''tok_visa'',
       sub_email = ''donor@example.com'', interval = iv,
       campaignDescription = ''Clean water for Nepal'', tags = [''clean water'', ''Nepal''],
       summary = ''This campaign provides clean water, Nepal to communities in need.'',
       status = st, createdAt = created, lastBilledAt = None,
       nextBillingAt = next,
       successfulCharges = 0, failedCharges = 0 \<rparr>"

definition exampleStore :: SubscriptionsService where
  "exampleStore =
     \<lparr> subscriptions =
         [(''donor1'', exampleSub ''donor1'' Monthly Active 1706659200000 1709337600000),
          (''donor2'', exampleSub ''donor2'' Weekly Cancelled 1706659200000 1707264000000),
          (''donor3'', exampleSub ''donor3'' Yearly Active 1706659200000 1738281600000)],
       donations = [],
       llmService = \<lparr> analysisCache = Map.empty, analyzeCalls = [] \<rparr> \<rparr>"

definition exampleCreate :: CreateSubscriptionDto where
  "exampleCreate =
     \<lparr> c_donorId = ''donor1'', c_amount = 40, c_currency = ''EUR'', c_source = ''tok_mc'',
       c_email = ''again@example.com'', c_interval = Weekly,
       c_campaignDescription = ''School meals'' \<rparr>"

definition exampleCreateEnv :: CreateEnv where
  "exampleCreateEnv =
     \<lparr> freshAnalysis = \<lparr> an_tags = [''education'', ''food security''],
                          an_summary = ''Meals for pupils.'' \<rparr>,
       createClock = 1709337600000 \<rparr>"

definition exampleBilling :: "Fault \<Rightarrow> BillingEnv" where
  "exampleBilling f =
     \<lparr> b_uuid8 = ''9f8e7d6c'', b_random1 = 1 / 20, b_random2 = 3 / 4,
       b_clockTx = 1709337600050, b_clockCatch = 1709337600060,
       b_clockUpdate = 1709337600070, b_fault = f \<rparr>"

section \<open>Properties of the payment path\<close>

subsection \<open>Shape of a call\<close>

lemma finishCharge_fields:
  "tx_status (fst (finishCharge svc p e t)) = pd_status p"
  "tx_provider (fst (finishCharge svc p e t)) = pd_provider p"
  "tx_explanation (fst (finishCharge svc p e t)) = e"
  "tx_riskScore (fst (finishCharge svc p e t)) = roundTo2 (pd_riskScore p)"
  "transactions (snd (finishCharge svc p e t)) = transactions svc @ [fst (finishCharge svc p e t)]"
  "llmCache (snd (finishCharge svc p e t)) = llmCache svc"
  "fraudConfig (snd (finishCharge svc p e t)) = fraudConfig svc"
  "riskBlockThreshold (snd (finishCharge svc p e t)) = riskBlockThreshold svc"
  by (simp_all add: finishCharge_def Let_def)

lemma prepareCharge_route:
  "(pd_provider (prepareCharge svc env dto), pd_status (prepareCharge svc env dto)) =
     route (riskBlockThreshold svc)
       (riskScore (fraudConfig svc) (transactions svc) (clockNow env) dto) (random env)"
  by (simp add: prepareCharge_def Let_def split: prod.splits)

lemma prepareCharge_fields:
  "pd_llmKey (prepareCharge svc env dto) =
     getLLMCacheKey (pd_provider (prepareCharge svc env dto))
       (riskScore (fraudConfig svc) (transactions svc) (clockNow env) dto)
       (explanationParts (fraudConfig svc) (transactions svc) (clockNow env) dto)"
  "pd_riskScore (prepareCharge svc env dto) =
     riskScore (fraudConfig svc) (transactions svc) (clockNow env) dto"
  "pd_reasons (prepareCharge svc env dto) =
     sort (explanationParts (fraudConfig svc) (transactions svc) (clockNow env) dto)"
  "pd_recentCount (prepareCharge svc env dto) =
     length (recentCharges (transactions svc) (clockNow env) dto)"
  by (simp_all add: prepareCharge_def Let_def split: prod.splits)

lemma charge_cases:
  "charge svc env dto =
     (case llmCache svc (pd_llmKey (prepareCharge svc env dto)) of
        Some cached \<Rightarrow> finishCharge svc (prepareCharge svc env dto) cached (clockStamp env)
      | None \<Rightarrow> charge_resume svc (prepareCharge svc env dto) (llmReply env) (clockStamp env))"
  by (simp add: charge_def charge_begin_def Let_def split: option.splits prod.splits)

lemma charge_fields:
  "tx_status (fst (charge svc env dto)) = pd_status (prepareCharge svc env dto)"
  "tx_provider (fst (charge svc env dto)) = pd_provider (prepareCharge svc env dto)"
  "tx_riskScore (fst (charge svc env dto)) = roundTo2 (pd_riskScore (prepareCharge svc env dto))"
  by (simp_all add: charge_cases charge_resume_def finishCharge_fields split: option.splits)

lemma charge_keeps_config:
  "fraudConfig (snd (charge svc env dto)) = fraudConfig svc"
  "riskBlockThreshold (snd (charge svc env dto)) = riskBlockThreshold svc"
  by (simp_all add: charge_cases charge_resume_def finishCharge_fields split: option.splits)

lemma chargeAll_Cons:
  "chargeAll svc ((env, dto) # rest) =
     (fst (charge svc env dto) # fst (chargeAll (snd (charge svc env dto)) rest),
      snd (chargeAll (snd (charge svc env dto)) rest))"
  by (simp split: prod.splits)

lemma reason_mem:
  "''large amount'' \<in> set (explanationParts cfg ledger now dto) \<longleftrightarrow> largeAmount cfg dto"
  "''suspicious email domain'' \<in> set (explanationParts cfg ledger now dto)
     \<longleftrightarrow> isSuspiciousDomain cfg dto"
  "''multiple charges in short time'' \<in> set (explanationParts cfg ledger now dto)
     \<longleftrightarrow> velocity cfg ledger now dto"
  "''geolocation mismatch'' \<in> set (explanationParts cfg ledger now dto) \<longleftrightarrow> geoMismatch dto"
  "''Russian IP address'' \<in> set (explanationParts cfg ledger now dto) \<longleftrightarrow> russianIP dto"
  by (simp_all add: explanationParts_def)

subsection \<open>Routing\<close>

text \<open>
  Claim C1. For every charge request: when the capped score is strictly below the block
  threshold the returned record has status success and provider stripe or paypal;
  otherwise it has status blocked and no provider. The record is the one returned by a
  call that runs alone, or by a call that was suspended and resumed on any later state
  with any explanation.
\<close>

theorem charge_routing:
  assumes "tx = fst (charge svc env dto)
           \<or> tx = fst (charge_resume later (prepareCharge svc env dto) reply stamp)"
  shows "if riskScore (fraudConfig svc) (transactions svc) (clockNow env) dto < riskBlockThreshold svc
         then tx_status tx = Success \<and> tx_provider tx \<in> {Some ''stripe'', Some ''paypal''}
         else tx_status tx = Blocked \<and> tx_provider tx = None"
proof -
  have st: "tx_status tx = pd_status (prepareCharge svc env dto)"
    and pr: "tx_provider tx = pd_provider (prepareCharge svc env dto)"
    using assms by (auto simp: charge_fields charge_resume_def finishCharge_fields)
  from prepareCharge_route [of svc env dto] show ?thesis
    unfolding st pr by (auto simp: route_def split: if_splits)
qed

theorem charge_routing_witness:
  "\<not> riskScore (fraudConfig exampleService) (transactions exampleService) (clockNow envA) riskyDto
        < riskBlockThreshold exampleService
   \<and> tx_status (fst (charge exampleService envA riskyDto)) = Blocked
   \<and> tx_provider (fst (charge exampleService envA riskyDto)) = None
   \<and> riskScore (fraudConfig exampleService) (transactions exampleService) (clockNow envB) plainDto
        < riskBlockThreshold exampleService
   \<and> tx_status (fst (charge exampleService envB plainDto)) = Success
   \<and> tx_provider (fst (charge exampleService envB plainDto)) \<in> {Some ''stripe'', Some ''paypal''}"
proof -
  have h1: "\<not> riskScore (fraudConfig exampleService) (transactions exampleService) (clockNow envA) riskyDto
              < riskBlockThreshold exampleService"
    by code_simp
  have h2: "riskScore (fraudConfig exampleService) (transactions exampleService) (clockNow envB) plainDto
              < riskBlockThreshold exampleService"
    by code_simp
  from charge_routing [of "fst (charge exampleService envA riskyDto)" exampleService envA riskyDto]
    charge_routing [of "fst (charge exampleService envB plainDto)" exampleService envB plainDto]
    h1 h2
  show ?thesis by simp
qed

subsection \<open>Velocity\<close>





text \<open>
  Claim C3, as the specification states it, fails: the window is open at its lower end.
  A ledger entry for the same email stamped exactly one hour before the check is in the
  ledger and is not counted.
\<close>

theorem velocity_window_counterexample:
  "tx_timestamp (priorCharge 1699996400000) = 1700000000000 - 60 * 60 * 1000
   \<and> tx_email (priorCharge 1699996400000) = dto_email plainDto
   \<and> priorCharge 1699996400000 \<in> set [priorCharge 1699996400000]
   \<and> priorCharge 1699996400000 \<notin> set (recentCharges [priorCharge 1699996400000] 1700000000000 plainDto)
   \<and> pd_recentCount (prepareCharge (exampleService\<lparr>transactions := [priorCharge 1699996400000]\<rparr>)
        envA plainDto) = 0"
  by (simp add: prepareCharge_fields recentCharges_def oneHourAgo_def priorCharge_def plainDto_def
      envA_def exampleService_def)

text \<open>
  Claim C3, amended. The count is the number of ledger entries with the request's email
  whose timestamp is strictly later than the check time minus 3600000 ms: every such entry
  is counted (so is every entry in the half-open interval from one hour ago, exclusive, to
  now, inclusive), no other entry is, and an entry stamped exactly one hour ago is not.
\<close>

theorem velocity_window:
  "(t \<in> set (recentCharges ledger now dto) \<longleftrightarrow>
       t \<in> set ledger \<and> tx_email t = dto_email dto \<and> now - 3600000 < tx_timestamp t)
   \<and> pd_recentCount (prepareCharge svc env dto) =
       length (filter (\<lambda>t. tx_email t = dto_email dto \<and> clockNow env - 3600000 < tx_timestamp t)
                 (transactions svc))
   \<and> (t \<in> set ledger \<and> tx_email t = dto_email dto
        \<and> now - 3600000 < tx_timestamp t \<and> tx_timestamp t \<le> now
        \<longrightarrow> t \<in> set (recentCharges ledger now dto))
   \<and> (tx_timestamp t = now - 3600000 \<longrightarrow> t \<notin> set (recentCharges ledger now dto))"
  by (auto simp: prepareCharge_fields recentCharges_def oneHourAgo_def)

theorem velocity_window_witness:
  "priorCharge 1699996400001 \<in> set [priorCharge 1699996400001]
   \<and> tx_email (priorCharge 1699996400001) = dto_email plainDto
   \<and> 1700000000000 - 3600000 < tx_timestamp (priorCharge 1699996400001)
   \<and> tx_timestamp (priorCharge 1699996400001) \<le> 1700000000000
   \<and> priorCharge 1699996400001 \<in> set (recentCharges [priorCharge 1699996400001] 1700000000000 plainDto)"
proof -
  have h: "priorCharge 1699996400001 \<in> set [priorCharge 1699996400001]
     \<and> tx_email (priorCharge 1699996400001) = dto_email plainDto
     \<and> 1700000000000 - 3600000 < tx_timestamp (priorCharge 1699996400001)
     \<and> tx_timestamp (priorCharge 1699996400001) \<le> 1700000000000"
    by (simp add: priorCharge_def plainDto_def)
  from velocity_window [of "priorCharge 1699996400001" "[priorCharge 1699996400001]"
      1700000000000 plainDto] h
  show ?thesis by blast
qed

subsection \<open>Score range and monotonicity\<close>

lemma hundredths_mono: "0 \<le> x \<Longrightarrow> x \<le> y \<Longrightarrow> hundredths x \<le> hundredths y"
  unfolding hundredths_def by (intro nat_mono floor_mono) simp

lemma hundredths_one: "hundredths 1 = 100"
  by code_simp

lemma roundTo2_nonneg: "0 \<le> x \<Longrightarrow> roundTo2 x = of_nat (hundredths x) / 100"
  by (simp add: roundTo2_def)

lemma roundTo2_mono: "0 \<le> x \<Longrightarrow> x \<le> y \<Longrightarrow> roundTo2 x \<le> roundTo2 y"
  using hundredths_mono [of x y] by (simp add: roundTo2_nonneg divide_right_mono)

lemma roundTo2_unit: "0 \<le> x \<Longrightarrow> x \<le> 1 \<Longrightarrow> 0 \<le> roundTo2 x \<and> roundTo2 x \<le> 1"
  using hundredths_mono [of x 1] by (simp add: roundTo2_nonneg hundredths_one)

lemma riskSum_flat:
  "riskSum cfg ledger now dto =
     1 / 10
       + (if largeAmount cfg dto then amountRisk cfg else 0)
       + (if isSuspiciousDomain cfg dto then domainRisk cfg else 0)
       + (if velocity cfg ledger now dto then velocityRisk cfg else 0)
       + (if geoMismatch dto then geoMismatchRisk cfg else 0)
       + (if russianIP dto then 4 / 10 else 0)"
  by (simp add: riskSum_def scoreAfterGeo_def scoreAfterVelocity_def scoreAfterDomain_def
      scoreAfterAmount_def)

lemma riskSum_nonneg:
  assumes "0 \<le> amountRisk cfg" "0 \<le> domainRisk cfg" "0 \<le> velocityRisk cfg"
    "0 \<le> geoMismatchRisk cfg"
  shows "0 \<le> riskSum cfg ledger now dto"
  using assms by (simp add: riskSum_flat)

lemma riskSum_mono:
  assumes "0 \<le> amountRisk cfg" "0 \<le> domainRisk cfg" "0 \<le> velocityRisk cfg"
    "0 \<le> geoMismatchRisk cfg"
    and sub: "set (explanationParts cfg ledger now dto) \<subseteq> set (explanationParts cfg ledger' now' dto')"
  shows "riskSum cfg ledger now dto \<le> riskSum cfg ledger' now' dto'"
proof -
  have a: "largeAmount cfg dto \<Longrightarrow> largeAmount cfg dto'"
    using sub reason_mem(1) by blast
  have b: "isSuspiciousDomain cfg dto \<Longrightarrow> isSuspiciousDomain cfg dto'"
    using sub reason_mem(2) by blast
  have c: "velocity cfg ledger now dto \<Longrightarrow> velocity cfg ledger' now' dto'"
    using sub reason_mem(3) by blast
  have d: "geoMismatch dto \<Longrightarrow> geoMismatch dto'"
    using sub reason_mem(4) by blast
  have e: "russianIP dto \<Longrightarrow> russianIP dto'"
    using sub reason_mem(5) by blast
  show ?thesis
    unfolding riskSum_flat
    by (intro add_mono order_refl) (use assms(1-4) a b c d e in auto)
qed

text \<open>
  Claim C4, as the specification states it, fails: the code caps the sum at 1 and has no
  lower clamp, so a configuration file with a negative increment gives a negative score.
\<close>

theorem riskScore_range_counterexample:
  "riskScore (fraudConfig negativeService) (transactions negativeService) (clockNow envA) largeDto < 0
   \<and> tx_riskScore (fst (charge negativeService envA largeDto)) < 0"
  by code_simp

text \<open>
  Claim C4, amended. Under a fraud configuration whose four risk increments are not
  negative, the capped score of every request lies in the closed interval from 0 to 1, and
  so does the two-decimal score in the returned record; and for two requests to the same
  configuration, if every heuristic triggered by the first is triggered by the second,
  the first's score is at most the second's, capped and recorded alike.
\<close>

theorem riskScore_bounds_mono:
  assumes "0 \<le> amountRisk (fraudConfig svc)" "0 \<le> domainRisk (fraudConfig svc)"
    "0 \<le> velocityRisk (fraudConfig svc)" "0 \<le> geoMismatchRisk (fraudConfig svc)"
    and "fraudConfig svc' = fraudConfig svc"
  shows "0 \<le> riskScore (fraudConfig svc) (transactions svc) (clockNow env) dto
       \<and> riskScore (fraudConfig svc) (transactions svc) (clockNow env) dto \<le> 1
       \<and> 0 \<le> tx_riskScore (fst (charge svc env dto))
       \<and> tx_riskScore (fst (charge svc env dto)) \<le> 1
       \<and> (set (explanationParts (fraudConfig svc) (transactions svc) (clockNow env) dto)
            \<subseteq> set (explanationParts (fraudConfig svc') (transactions svc') (clockNow env') dto')
          \<longrightarrow> riskScore (fraudConfig svc) (transactions svc) (clockNow env) dto
                \<le> riskScore (fraudConfig svc') (transactions svc') (clockNow env') dto'
              \<and> tx_riskScore (fst (charge svc env dto)) \<le> tx_riskScore (fst (charge svc' env' dto')))"
proof -
  let ?s = "riskScore (fraudConfig svc) (transactions svc) (clockNow env) dto"
  let ?s' = "riskScore (fraudConfig svc') (transactions svc') (clockNow env') dto'"
  have lo: "0 \<le> ?s"
    using riskSum_nonneg [OF assms(1-4)] by (simp add: riskScore_def)
  have hi: "?s \<le> 1"
    by (simp add: riskScore_def)
  have mono: "?s \<le> ?s'"
    if "set (explanationParts (fraudConfig svc) (transactions svc) (clockNow env) dto)
          \<subseteq> set (explanationParts (fraudConfig svc') (transactions svc') (clockNow env') dto')"
    using riskSum_mono [OF assms(1-4) that [unfolded assms(5)]]
    by (auto simp: riskScore_def assms(5))
  have rec: "tx_riskScore (fst (charge svc env dto)) = roundTo2 ?s"
    "tx_riskScore (fst (charge svc' env' dto')) = roundTo2 ?s'"
    by (simp_all add: charge_fields prepareCharge_fields)
  show ?thesis
    unfolding rec using lo hi mono roundTo2_unit [OF lo hi] roundTo2_mono [OF lo] by blast
qed

theorem riskScore_bounds_mono_witness:
  "0 \<le> amountRisk (fraudConfig exampleService) \<and> 0 \<le> domainRisk (fraudConfig exampleService)
   \<and> 0 \<le> velocityRisk (fraudConfig exampleService) \<and> 0 \<le> geoMismatchRisk (fraudConfig exampleService)
   \<and> set (explanationParts (fraudConfig exampleService) (transactions exampleService) (clockNow envA) largeDto)
        \<subseteq> set (explanationParts (fraudConfig exampleService) (transactions exampleService) (clockNow envB) riskyDto)
   \<and> 0 \<le> tx_riskScore (fst (charge exampleService envA largeDto))
   \<and> tx_riskScore (fst (charge exampleService envA largeDto)) \<le> 1
   \<and> tx_riskScore (fst (charge exampleService envA largeDto))
        \<le> tx_riskScore (fst (charge exampleService envB riskyDto))"
proof -
  have h: "0 \<le> amountRisk (fraudConfig exampleService)" "0 \<le> domainRisk (fraudConfig exampleService)"
    "0 \<le> velocityRisk (fraudConfig exampleService)" "0 \<le> geoMismatchRisk (fraudConfig exampleService)"
    by (simp_all add: exampleService_def exampleConfig_def)
  have s: "set (explanationParts (fraudConfig exampleService) (transactions exampleService) (clockNow envA) largeDto)
        \<subseteq> set (explanationParts (fraudConfig exampleService) (transactions exampleService) (clockNow envB) riskyDto)"
    by code_simp
  from riskScore_bounds_mono [OF h refl, of envA largeDto envB riskyDto] h s
  show ?thesis by blast
qed

subsection \<open>Explanation cache\<close>

lemma same_reasons_same_decision:
  assumes "set (explanationParts cfg ledger now dto) = set (explanationParts cfg ledger' now' dto')"
  shows "explanationParts cfg ledger now dto = explanationParts cfg ledger' now' dto'"
    and "riskScore cfg ledger now dto = riskScore cfg ledger' now' dto'"
proof -
  have a: "largeAmount cfg dto = largeAmount cfg dto'"
    using assms reason_mem(1) by metis
  have b: "isSuspiciousDomain cfg dto = isSuspiciousDomain cfg dto'"
    using assms reason_mem(2) by metis
  have c: "velocity cfg ledger now dto = velocity cfg ledger' now' dto'"
    using assms reason_mem(3) by metis
  have d: "geoMismatch dto = geoMismatch dto'"
    using assms reason_mem(4) by metis
  have e: "russianIP dto = russianIP dto'"
    using assms reason_mem(5) by metis
  show "explanationParts cfg ledger now dto = explanationParts cfg ledger' now' dto'"
    unfolding explanationParts_def a b c d e ..
  show "riskScore cfg ledger now dto = riskScore cfg ledger' now' dto'"
    unfolding riskScore_def riskSum_flat a b c d e ..
qed

lemma charge_explanation_cached:
  "llmCache (snd (charge svc env dto)) (pd_llmKey (prepareCharge svc env dto))
     = Some (tx_explanation (fst (charge svc env dto)))"
  by (simp add: charge_cases charge_resume_def finishCharge_fields split: option.splits)

lemma charge_hit:
  "llmCache svc (pd_llmKey (prepareCharge svc env dto)) = Some v \<Longrightarrow>
     tx_explanation (fst (charge svc env dto)) = v"
  by (simp add: charge_cases finishCharge_fields)

lemma charge_keeps_cache:
  "llmCache svc k = Some v \<Longrightarrow> llmCache (snd (charge svc env dto)) k = Some v"
  by (auto simp: charge_cases charge_resume_def finishCharge_fields split: option.splits)

lemma charge_begin_hit:
  "llmCache svc (pd_llmKey (prepareCharge svc env dto)) = Some v \<Longrightarrow>
     charge_begin svc env dto
       = Returned (fst (charge svc env dto)) (snd (charge svc env dto))"
  by (simp add: charge_def charge_begin_def Let_def split: prod.splits)

lemma handle_Start:
  "handle svc (Start env dto) =
     (case llmCache svc (pd_llmKey (prepareCharge svc env dto)) of
        Some cached \<Rightarrow> snd (finishCharge svc (prepareCharge svc env dto) cached (clockStamp env))
      | None \<Rightarrow> svc)"
  by (simp add: charge_begin_def Let_def split: option.splits prod.splits)

lemma handle_keeps_config: "fraudConfig (handle svc ev) = fraudConfig svc"
proof (cases ev)
  case (Start env dto)
  then show ?thesis
    by (simp add: handle_Start finishCharge_fields split: option.splits del: handle.simps)
next
  case (Resume p explanation stamp)
  then show ?thesis by (simp add: charge_resume_def finishCharge_fields)
qed

lemma handle_keeps_cache:
  assumes "\<not> resumesKey k ev" and "llmCache svc k = Some v"
  shows "llmCache (handle svc ev) k = Some v"
proof (cases ev)
  case (Start env dto)
  then show ?thesis
    using assms(2)
    by (simp add: handle_Start finishCharge_fields split: option.splits del: handle.simps)
next
  case (Resume p explanation stamp)
  then show ?thesis
    using assms by (simp add: charge_resume_def finishCharge_fields)
qed

lemma run_keeps:
  "list_all (\<lambda>ev. \<not> resumesKey k ev) events \<Longrightarrow>
     fraudConfig (foldl handle svc events) = fraudConfig svc
     \<and> (llmCache svc k = Some v \<longrightarrow> llmCache (foldl handle svc events) k = Some v)"
proof (induction events arbitrary: svc)
  case Nil
  show ?case by simp
next
  case (Cons ev events)
  from Cons.prems have q: "\<not> resumesKey k ev" and rest: "list_all (\<lambda>ev. \<not> resumesKey k ev) events"
    by simp_all
  show ?case
    using Cons.IH [OF rest, of "handle svc ev"] handle_keeps_cache [OF q, of svc v]
    by (simp add: handle_keeps_config)
qed

text \<open>
  Claim C5, as the specification states it, fails for calls that overlap. Two calls start
  on the same service before either has its explanation; both miss the cache, each waits
  for its own reply, and each returns the reply it got. Provider, two-decimal score and
  reasons agree, the explanation texts differ.
\<close>

theorem explanation_overlap_counterexample:
  "charge_begin exampleService envA plainDto = Awaiting (prepareCharge exampleService envA plainDto)
   \<and> charge_begin exampleService envB otherDto = Awaiting (prepareCharge exampleService envB otherDto)
   \<and> tx_provider (fst overlapFirst) = tx_provider (fst overlapSecond)
   \<and> tx_riskScore (fst overlapFirst) = tx_riskScore (fst overlapSecond)
   \<and> set (pd_reasons (prepareCharge exampleService envA plainDto))
       = set (pd_reasons (prepareCharge exampleService envB otherDto))
   \<and> tx_explanation (fst overlapFirst) \<noteq> tx_explanation (fst overlapSecond)"
proof -
  have "charge_begin exampleService envA plainDto = Awaiting (prepareCharge exampleService envA plainDto)"
    "charge_begin exampleService envB otherDto = Awaiting (prepareCharge exampleService envB otherDto)"
    by (simp_all add: charge_begin_def Let_def exampleService_def)
  moreover have "tx_provider (fst overlapFirst) = tx_provider (fst overlapSecond)
     \<and> tx_riskScore (fst overlapFirst) = tx_riskScore (fst overlapSecond)
     \<and> set (pd_reasons (prepareCharge exampleService envA plainDto))
         = set (pd_reasons (prepareCharge exampleService envB otherDto))
     \<and> tx_explanation (fst overlapFirst) \<noteq> tx_explanation (fst overlapSecond)"
    by code_simp
  ultimately show ?thesis by simp
qed

text \<open>
  Claim C5, amended. Take two calls of one process run such that the second starts after
  the first has completed, and such that no other call with the same cache key that was
  still waiting for its explanation completes in between. The first call may have run
  alone or may itself have been suspended and resumed on a later state; in between, any
  calls may start, and waiting calls with other keys may complete. If the two decisions
  have the same provider, the same two-decimal score and the same set of triggered
  reasons, the two returned records carry the same explanation text, whatever else
  differs in the requests and whatever the collaborator would have answered the second
  time; the second call finds the text in the cache and returns without suspending.
\<close>

theorem explanation_shared_after_completion:
  assumes first: "r1 = charge svc env1 dto1
                  \<or> r1 = charge_resume later (prepareCharge svc env1 dto1) reply stamp"
    and config: "fraudConfig later = fraudConfig svc"
    and between: "svc2 = foldl handle (snd r1) events"
    and quiet: "list_all (\<lambda>ev. \<not> resumesKey (pd_llmKey (prepareCharge svc env1 dto1)) ev) events"
    and provider: "tx_provider (fst (charge svc2 env2 dto2)) = tx_provider (fst r1)"
    and score: "tx_riskScore (fst (charge svc2 env2 dto2)) = tx_riskScore (fst r1)"
    and reasons: "set (explanationParts (fraudConfig svc2) (transactions svc2) (clockNow env2) dto2)
                = set (explanationParts (fraudConfig svc) (transactions svc) (clockNow env1) dto1)"
  shows "tx_explanation (fst (charge svc2 env2 dto2)) = tx_explanation (fst r1)
       \<and> charge_begin svc2 env2 dto2
           = Returned (fst (charge svc2 env2 dto2)) (snd (charge svc2 env2 dto2))"
proof -
  let ?k = "pd_llmKey (prepareCharge svc env1 dto1)"
  have cached: "llmCache (snd r1) ?k = Some (tx_explanation (fst r1))"
    using first charge_explanation_cached [of svc env1 dto1]
    by (auto simp: charge_resume_def finishCharge_fields)
  have cfg1: "fraudConfig (snd r1) = fraudConfig svc"
    using first config charge_keeps_config(1) [of svc env1 dto1]
    by (auto simp: charge_resume_def finishCharge_fields)
  have prov1: "tx_provider (fst r1) = pd_provider (prepareCharge svc env1 dto1)"
    using first charge_fields(2) [of svc env1 dto1]
    by (auto simp: charge_resume_def finishCharge_fields)
  have cfg2: "fraudConfig svc2 = fraudConfig svc"
    using run_keeps [OF quiet, of "snd r1"] cfg1 between by simp
  have cached2: "llmCache svc2 ?k = Some (tx_explanation (fst r1))"
    using run_keeps [OF quiet, of "snd r1" "tx_explanation (fst r1)"] cached between by simp
  have prov: "pd_provider (prepareCharge svc2 env2 dto2) = pd_provider (prepareCharge svc env1 dto1)"
    using provider prov1 charge_fields(2) [of svc2 env2 dto2] by simp
  have key: "pd_llmKey (prepareCharge svc2 env2 dto2) = ?k"
    using same_reasons_same_decision [OF reasons [unfolded cfg2]] prov
    by (simp add: prepareCharge_fields cfg2)
  have hit: "llmCache svc2 (pd_llmKey (prepareCharge svc2 env2 dto2)) = Some (tx_explanation (fst r1))"
    unfolding key by (rule cached2)
  from charge_hit [OF hit] charge_begin_hit [OF hit] show ?thesis by simp
qed

theorem explanation_shared_after_completion_witness:
  "list_all (\<lambda>ev. \<not> resumesKey (pd_llmKey (prepareCharge exampleService envA plainDto)) ev) laterEvents
   \<and> tx_provider (fst (charge (foldl handle (snd overlapFirst) laterEvents) envB otherDto))
       = tx_provider (fst overlapFirst)
   \<and> tx_riskScore (fst (charge (foldl handle (snd overlapFirst) laterEvents) envB otherDto))
       = tx_riskScore (fst overlapFirst)
   \<and> set (explanationParts (fraudConfig (foldl handle (snd overlapFirst) laterEvents))
          (transactions (foldl handle (snd overlapFirst) laterEvents)) (clockNow envB) otherDto)
       = set (explanationParts (fraudConfig exampleService) (transactions exampleService)
          (clockNow envA) plainDto)
   \<and> length (transactions (foldl handle (snd overlapFirst) laterEvents)) = 2
   \<and> tx_explanation (fst (charge (foldl handle (snd overlapFirst) laterEvents) envB otherDto))
       = tx_explanation (fst overlapFirst)
   \<and> tx_explanation (fst overlapFirst) = llmReply envA
   \<and> llmReply envA \<noteq> llmReply envB"
proof -
  let ?s2 = "foldl handle (snd overlapFirst) laterEvents"
  have f: "overlapFirst = charge exampleService envA plainDto
           \<or> overlapFirst = charge_resume exampleService (prepareCharge exampleService envA plainDto)
                (llmReply envA) (clockStamp envA)"
    by (simp add: overlapFirst_def)
  have q: "list_all (\<lambda>ev. \<not> resumesKey (pd_llmKey (prepareCharge exampleService envA plainDto)) ev)
             laterEvents"
    by code_simp
  have p: "tx_provider (fst (charge ?s2 envB otherDto)) = tx_provider (fst overlapFirst)"
    by code_simp
  have r: "tx_riskScore (fst (charge ?s2 envB otherDto)) = tx_riskScore (fst overlapFirst)"
    by code_simp
  have e: "set (explanationParts (fraudConfig ?s2) (transactions ?s2) (clockNow envB) otherDto)
         = set (explanationParts (fraudConfig exampleService) (transactions exampleService)
             (clockNow envA) plainDto)"
    by code_simp
  have n: "length (transactions ?s2) = 2"
    by code_simp
  have t: "tx_explanation (fst overlapFirst) = llmReply envA \<and> llmReply envA \<noteq> llmReply envB"
    by code_simp
  from explanation_shared_after_completion [OF f refl refl q p r e] q p r e n t
  show ?thesis by simp
qed

subsection \<open>Ledger\<close>

lemma charge_appends:
  "transactions (snd (charge svc env dto)) = transactions svc @ [fst (charge svc env dto)]"
  by (simp add: charge_cases charge_resume_def finishCharge_fields split: option.splits)

lemma charge_resume_appends:
  "transactions (snd (charge_resume svc p reply stamp))
     = transactions svc @ [fst (charge_resume svc p reply stamp)]"
  by (simp add: charge_resume_def finishCharge_fields)

lemma chargeAll_appends:
  "transactions (snd (chargeAll svc calls)) = transactions svc @ fst (chargeAll svc calls)
   \<and> length (fst (chargeAll svc calls)) = length calls"
proof (induction calls arbitrary: svc)
  case Nil
  show ?case by simp
next
  case (Cons c calls)
  obtain env dto where c: "c = (env, dto)" by (cases c)
  show ?case
    using Cons.IH [of "snd (charge svc env dto)"] charge_appends [of svc env dto]
    by (simp add: c chargeAll_Cons del: chargeAll.simps)
qed

text \<open>
  Claim C9. Every call, accepted or blocked, leaves the ledger as it was with exactly the
  returned record added at the end: for a call that runs alone, and for a suspended call
  at the moment it resumes, on whatever the ledger is by then. So after calls handled one
  after the other the transactions query returns the old ledger followed by the returned
  records, one per call, in the order the calls completed.
\<close>

theorem ledger_append_only:
  "getTransactions (snd (charge svc env dto)) = getTransactions svc @ [fst (charge svc env dto)]
   \<and> getTransactions (snd (charge_resume svc p reply stamp))
        = getTransactions svc @ [fst (charge_resume svc p reply stamp)]
   \<and> getTransactions (snd (chargeAll svc calls)) = getTransactions svc @ fst (chargeAll svc calls)
   \<and> length (fst (chargeAll svc calls)) = length calls"
  unfolding getTransactions_def
  using charge_appends [of svc env dto] charge_resume_appends [of svc p reply stamp]
    chargeAll_appends [of svc calls]
  by simp

theorem ledger_append_only_witness:
  "getTransactions (snd (chargeAll (exampleService\<lparr>transactions := [priorCharge 1699996400000]\<rparr>)
       [(envA, riskyDto), (envB, plainDto)]))
     = [priorCharge 1699996400000,
        fst (charge (exampleService\<lparr>transactions := [priorCharge 1699996400000]\<rparr>) envA riskyDto),
        fst (charge (snd (charge (exampleService\<lparr>transactions := [priorCharge 1699996400000]\<rparr>)
               envA riskyDto)) envB plainDto)]
   \<and> tx_status (fst (charge (exampleService\<lparr>transactions := [priorCharge 1699996400000]\<rparr>)
        envA riskyDto)) = Blocked"
proof -
  have b: "tx_status (fst (charge (exampleService\<lparr>transactions := [priorCharge 1699996400000]\<rparr>)
        envA riskyDto)) = Blocked"
    by code_simp
  from ledger_append_only [where svc = "exampleService\<lparr>transactions := [priorCharge 1699996400000]\<rparr>"
      and env = envA and dto = riskyDto and calls = "[(envA, riskyDto), (envB, plainDto)]"] b
  show ?thesis by (simp add: getTransactions_def chargeAll_Cons del: chargeAll.simps)
qed

section \<open>Properties of the subscription store and the billing run\<close>

subsection \<open>Due query\<close>

text \<open>
  Claim C6. At every store state and time, the due query returns exactly the stored
  subscriptions whose status is active and whose next billing time is not after now; no
  returned subscription is cancelled, whatever its next billing time.
\<close>

theorem due_query_exact:
  "((k, sub) \<in> set (getSubscriptionsDueForBilling svc now) \<longleftrightarrow>
      (k, sub) \<in> set (subscriptions svc) \<and> status sub = Active \<and> nextBillingAt sub \<le> now)
   \<and> (\<forall>entry \<in> set (getSubscriptionsDueForBilling svc now). status (snd entry) \<noteq> Cancelled)"
  by (auto simp: getSubscriptionsDueForBilling_def)

theorem due_query_exact_witness:
  "(''donor1'', exampleSub ''donor1'' Monthly Active 1706659200000 1709337600000)
      \<in> set (getSubscriptionsDueForBilling exampleStore 1709337600000)
   \<and> (''donor2'', exampleSub ''donor2'' Weekly Cancelled 1706659200000 1707264000000) \<in> set (subscriptions exampleStore)
   \<and> nextBillingAt (exampleSub ''donor2'' Weekly Cancelled 1706659200000 1707264000000) \<le> 1709337600000
   \<and> (''donor2'', exampleSub ''donor2'' Weekly Cancelled 1706659200000 1707264000000)
      \<notin> set (getSubscriptionsDueForBilling exampleStore 1709337600000)"
proof -
  have h1: "(''donor1'', exampleSub ''donor1'' Monthly Active 1706659200000 1709337600000) \<in> set (subscriptions exampleStore)
      \<and> status (exampleSub ''donor1'' Monthly Active 1706659200000 1709337600000) = Active
      \<and> nextBillingAt (exampleSub ''donor1'' Monthly Active 1706659200000 1709337600000) \<le> 1709337600000"
    by code_simp
  have h2: "(''donor2'', exampleSub ''donor2'' Weekly Cancelled 1706659200000 1707264000000) \<in> set (subscriptions exampleStore)
      \<and> nextBillingAt (exampleSub ''donor2'' Weekly Cancelled 1706659200000 1707264000000) \<le> 1709337600000
      \<and> status (exampleSub ''donor2'' Weekly Cancelled 1706659200000 1707264000000) = Cancelled"
    by code_simp
  from due_query_exact [of "''donor1''" "exampleSub ''donor1'' Monthly Active 1706659200000 1709337600000"
      exampleStore 1709337600000]
    due_query_exact [of "''donor2''" "exampleSub ''donor2'' Weekly Cancelled 1706659200000 1707264000000"
      exampleStore 1709337600000]
    h1 h2
  show ?thesis by auto
qed

subsection \<open>Schedule after billing\<close>

lemma processBilling_schedule_fields:
  "processBilling env (sub, hist) = Some (tx, sub', hist') \<Longrightarrow>
     interval sub' = interval sub \<and> createdAt sub' = createdAt sub"
  by (auto simp: processBilling_def Let_def split: Fault.splits FaultPoint.splits if_splits)

lemma processSubscriptionBilling_schedule:
  "lastBilledAt (fst (processSubscriptionBilling host env (sub, hist))) = Some (b_clockUpdate env)"
  "nextBillingAt (fst (processSubscriptionBilling host env (sub, hist))) =
     calculateNextBillingDate host (b_clockUpdate env) (interval sub)"
  "interval (fst (processSubscriptionBilling host env (sub, hist))) = interval sub"
  by (auto simp: processSubscriptionBilling_def updateBillingSchedule_def
      dest: processBilling_schedule_fields split: option.splits)

lemma processBilling_keeps_schedule:
  "processBilling env (sub, hist) = Some (tx, sub', hist') \<Longrightarrow>
     lastBilledAt sub' = lastBilledAt sub \<and> nextBillingAt sub' = nextBillingAt sub"
  by (auto simp: processBilling_def Let_def split: Fault.splits FaultPoint.splits if_splits)

lemma processBilling_invariant:
  "processBilling env (sub, hist) = Some (tx, sub', hist') \<Longrightarrow>
     scheduleInvariant host sub' = scheduleInvariant host sub"
  using processBilling_schedule_fields [of env sub hist tx sub' hist']
    processBilling_keeps_schedule [of env sub hist tx sub' hist']
  by (simp add: scheduleInvariant_def split: option.splits)

lemma updateBillingSchedule_invariant:
  "scheduleInvariant host (updateBillingSchedule host now sub)"
  by (simp add: scheduleInvariant_def updateBillingSchedule_def)

lemma processSubscriptionBilling_invariant:
  "scheduleInvariant host (fst (processSubscriptionBilling host env (sub, hist)))"
  by (simp add: scheduleInvariant_def processSubscriptionBilling_schedule)

lemma scheduleInvariant_status:
  "scheduleInvariant host (sub\<lparr>status := st\<rparr>) = scheduleInvariant host sub"
  by (simp add: scheduleInvariant_def split: option.splits)

lemma chunkLoop_returns:
  assumes "0 < n"
  shows "\<exists>cs. chunkLoop xs n i acc = Some (acc @ cs) \<and> concat cs = drop i xs"
  using assms
proof (induction "length xs - i" arbitrary: i acc rule: less_induct)
  case less
  show ?case
  proof (cases "i < length xs")
    case False
    then show ?thesis by (subst chunkLoop.simps) simp
  next
    case True
    then have "length xs - (i + n) < length xs - i"
      using \<open>0 < n\<close> by arith
    from less.hyps [OF this \<open>0 < n\<close>, of "acc @ [take n (drop i xs)]"]
    obtain cs where
      cs: "chunkLoop xs n (i + n) (acc @ [take n (drop i xs)])
             = Some ((acc @ [take n (drop i xs)]) @ cs)"
      and cc: "concat cs = drop (i + n) xs"
      by blast
    have "chunkLoop xs n i acc = Some (acc @ (take n (drop i xs) # cs))"
      using True cs by (subst chunkLoop.simps) simp
    moreover have "concat (take n (drop i xs) # cs) = drop i xs"
      using cc by (simp add: add.commute [of i n] flip: drop_drop)
    ultimately show ?thesis by blast
  qed
qed

lemma chunkArray_returns:
  "0 < n \<Longrightarrow> \<exists>batches. chunkArray xs n = Some batches \<and> concat batches = xs"
  using chunkLoop_returns [of n xs 0 "[]"] by (simp add: chunkArray_def)

lemma foldl_concat_batches:
  "foldl (\<lambda>s b. foldl f s b) s bs = foldl f s (concat bs)"
  by (induction bs arbitrary: s) simp_all

lemma processDueSubscriptions_fold:
  "processDueSubscriptions host envOf now svc =
     Some (foldl (\<lambda>s entry. billStored host (envOf (fst entry)) s (fst entry)) svc
             (getSubscriptionsDueForBilling svc now))"
proof -
  obtain batches where b: "chunkArray (getSubscriptionsDueForBilling svc now) 5 = Some batches"
    and c: "concat batches = getSubscriptionsDueForBilling svc now"
    using chunkArray_returns [of 5 "getSubscriptionsDueForBilling svc now"] by auto
  have "foldl (processBatch host envOf) svc batches =
        foldl (\<lambda>s entry. billStored host (envOf (fst entry)) s (fst entry)) svc (concat batches)"
    unfolding processBatch_def by (rule foldl_concat_batches)
  then show ?thesis
    using b c by (simp add: processDueSubscriptions_def Let_def)
qed

lemma billStored_unfold:
  "billStored host env svc k =
     (case map_of (subscriptions svc) k of
        None \<Rightarrow> svc
      | Some sub \<Rightarrow>
          svc\<lparr>subscriptions :=
                AList.map_entry k (\<lambda>_. fst (processSubscriptionBilling host env (sub, donations svc)))
                  (subscriptions svc),
              donations := snd (processSubscriptionBilling host env (sub, donations svc))\<rparr>)"
  by (simp add: billStored_def split: option.splits prod.splits)

lemma billStored_keys:
  "map_of (subscriptions (billStored host env s k')) k = None \<longleftrightarrow> map_of (subscriptions s) k = None"
  by (auto simp: billStored_unfold map_of_map_entry split: option.splits)

lemma billStored_other:
  "k' \<noteq> k \<Longrightarrow> map_of (subscriptions (billStored host env s k')) k = map_of (subscriptions s) k"
  by (auto simp: billStored_unfold map_of_map_entry split: option.splits)

lemma billStored_same:
  "map_of (subscriptions s) k = Some sub \<Longrightarrow>
     map_of (subscriptions (billStored host env s k)) k
       = Some (fst (processSubscriptionBilling host env (sub, donations s)))"
  by (simp add: billStored_unfold map_of_map_entry)

lemma billStored_rescheduled:
  "map_of (subscriptions s) k \<noteq> None \<Longrightarrow>
     rescheduled host (b_clockUpdate env) (billStored host env s k) k"
  by (auto simp: rescheduled_def billStored_same processSubscriptionBilling_schedule)

lemma billStored_keeps_rescheduled:
  assumes "rescheduled host (b_clockUpdate (envOf k)) s k"
  shows "rescheduled host (b_clockUpdate (envOf k)) (billStored host (envOf k') s k') k"
proof (cases "k' = k")
  case True
  from assms have "map_of (subscriptions s) k \<noteq> None"
    by (auto simp: rescheduled_def split: option.splits)
  then show ?thesis unfolding True by (rule billStored_rescheduled)
next
  case False
  then show ?thesis using assms by (simp add: rescheduled_def billStored_other)
qed

lemma fold_keeps_rescheduled:
  "rescheduled host (b_clockUpdate (envOf k)) s k \<Longrightarrow>
     rescheduled host (b_clockUpdate (envOf k))
       (foldl (\<lambda>s entry. billStored host (envOf (fst entry)) s (fst entry)) s entries) k"
  by (induction entries arbitrary: s) (simp_all add: billStored_keeps_rescheduled)

lemma fold_rescheduled:
  "k \<in> fst ` set entries \<Longrightarrow> map_of (subscriptions s) k \<noteq> None \<Longrightarrow>
     rescheduled host (b_clockUpdate (envOf k))
       (foldl (\<lambda>s entry. billStored host (envOf (fst entry)) s (fst entry)) s entries) k"
proof (induction entries arbitrary: s)
  case Nil
  then show ?case by simp
next
  case (Cons e es)
  show ?case
  proof (cases "fst e = k")
    case True
    have "rescheduled host (b_clockUpdate (envOf k)) (billStored host (envOf k) s k) k"
      using Cons.prems(2) by (rule billStored_rescheduled)
    then show ?thesis using True by (simp add: fold_keeps_rescheduled)
  next
    case False
    with Cons.prems have "k \<in> fst ` set es" by auto
    moreover have "map_of (subscriptions (billStored host (envOf (fst e)) s (fst e))) k \<noteq> None"
      using Cons.prems(2) by (simp add: billStored_keys)
    ultimately show ?thesis using Cons.IH by simp
  qed
qed

lemma due_entry_stored:
  "(k, sub) \<in> set (getSubscriptionsDueForBilling svc now) \<Longrightarrow> map_of (subscriptions svc) k \<noteq> None"
  by (auto simp: getSubscriptionsDueForBilling_def map_of_eq_None_iff intro: rev_image_eqI)

lemma tick_reschedules:
  assumes "(k, sub) \<in> set (getSubscriptionsDueForBilling svc now)"
  shows "\<exists>svc'. processDueSubscriptions host envOf now svc = Some svc'
            \<and> rescheduled host (b_clockUpdate (envOf k)) svc' k"
proof -
  have "k \<in> fst ` set (getSubscriptionsDueForBilling svc now)"
    using assms by (auto intro: rev_image_eqI)
  then show ?thesis
    using due_entry_stored [OF assms]
    by (simp add: processDueSubscriptions_fold fold_rescheduled)
qed

lemma list_all_map_entry:
  "list_all (\<lambda>e. Q (snd e)) xs \<Longrightarrow> (\<And>v. Q v \<Longrightarrow> Q (f v)) \<Longrightarrow>
     list_all (\<lambda>e. Q (snd e)) (AList.map_entry k f xs)"
  by (induction xs) auto

lemma list_all_update:
  "list_all (\<lambda>e. Q (snd e)) xs \<Longrightarrow> Q v \<Longrightarrow> list_all (\<lambda>e. Q (snd e)) (AList.update k v xs)"
  by (induction xs) auto

lemma create_invariant:
  "storeInvariant host svc \<Longrightarrow> storeInvariant host (snd (createSubscription host svc env dto))"
  by (auto simp: storeInvariant_def createSubscription_def Let_def scheduleInvariant_def
      split: prod.splits intro!: list_all_update)

lemma create_new_invariant:
  "createSubscription host svc env dto = (Inr new, svc') \<Longrightarrow> scheduleInvariant host new"
  by (auto simp: createSubscription_def Let_def scheduleInvariant_def split: if_splits prod.splits)

lemma cancel_invariant:
  assumes "storeInvariant host svc"
  shows "storeInvariant host (snd (cancelSubscription svc d))"
proof -
  have "list_all (\<lambda>e. scheduleInvariant host (snd e))
          (AList.map_entry d (\<lambda>sub. sub\<lparr>status := Cancelled\<rparr>) (subscriptions svc))"
    using assms unfolding storeInvariant_def
    by (rule list_all_map_entry) (simp add: scheduleInvariant_status)
  then show ?thesis
    using assms by (simp add: cancelSubscription_def storeInvariant_def split: option.splits)
qed

lemma billStored_invariant:
  assumes "storeInvariant host svc"
  shows "storeInvariant host (billStored host env svc k)"
proof (cases "map_of (subscriptions svc) k")
  case None
  then show ?thesis using assms by (simp add: billStored_unfold)
next
  case (Some sub)
  have "list_all (\<lambda>e. scheduleInvariant host (snd e))
          (AList.map_entry k (\<lambda>_. fst (processSubscriptionBilling host env (sub, donations svc)))
             (subscriptions svc))"
    using assms unfolding storeInvariant_def
    by (rule list_all_map_entry) (rule processSubscriptionBilling_invariant)
  then show ?thesis
    using Some by (simp add: billStored_unfold storeInvariant_def)
qed

lemma tick_invariant:
  assumes "storeInvariant host svc"
  shows "\<exists>svc'. processDueSubscriptions host envOf now svc = Some svc' \<and> storeInvariant host svc'"
proof -
  have "storeInvariant host
          (foldl (\<lambda>s entry. billStored host (envOf (fst entry)) s (fst entry)) s entries)"
    if "storeInvariant host s" for s and entries :: "(string \<times> Subscription) list"
    using that by (induction entries arbitrary: s) (simp_all add: billStored_invariant)
  with assms show ?thesis by (simp add: processDueSubscriptions_fold)
qed

text \<open>
  Claim C7. Whatever happens while a subscription is billed (the simulated charge
  succeeds, it fails, or an exception strikes at any of the modelled points, all of which
  \<open>env\<close> ranges over), the processed object has \<open>lastBilledAt\<close> set to the clock value read
  by the schedule update and \<open>nextBillingAt\<close> set to that time moved on by the host's date
  arithmetic: seven days of the month for weekly, one month for monthly, one year for
  yearly. A billing run returns, and every subscription it found due is rescheduled in
  this way in the store it leaves. The invariant (next due time is one interval after the
  last billing, or after creation when never billed) holds for a newly created
  subscription and after a schedule update, and is kept by the charge simulation, by
  creation, cancellation and a billing run.
\<close>

theorem billing_reschedules:
  assumes "storeInvariant host svc"
    and "(k, due) \<in> set (getSubscriptionsDueForBilling svc now)"
  shows "lastBilledAt (fst (processSubscriptionBilling host env (sub, hist))) = Some (b_clockUpdate env)
       \<and> nextBillingAt (fst (processSubscriptionBilling host env (sub, hist))) =
           (case interval sub of
              Weekly \<Rightarrow> setDate host (b_clockUpdate env) (getDate host (b_clockUpdate env) + 7)
            | Monthly \<Rightarrow> setMonth host (b_clockUpdate env) (getMonth host (b_clockUpdate env) + 1)
            | Yearly \<Rightarrow> setFullYear host (b_clockUpdate env) (getFullYear host (b_clockUpdate env) + 1))
       \<and> scheduleInvariant host (fst (processSubscriptionBilling host env (sub, hist)))
       \<and> (\<exists>svc'. processDueSubscriptions host envOf now svc = Some svc'
             \<and> rescheduled host (b_clockUpdate (envOf k)) svc' k
             \<and> storeInvariant host svc')
       \<and> storeInvariant host (snd (createSubscription host svc cenv dto))
       \<and> (\<forall>new svc'. createSubscription host svc cenv dto = (Inr new, svc')
             \<longrightarrow> scheduleInvariant host new)
       \<and> storeInvariant host (snd (cancelSubscription svc d))
       \<and> scheduleInvariant host (updateBillingSchedule host t sub)
       \<and> (\<forall>tx sub' hist'. processBilling env (sub, hist) = Some (tx, sub', hist')
             \<longrightarrow> scheduleInvariant host sub' = scheduleInvariant host sub)"
proof -
  have "nextBillingAt (fst (processSubscriptionBilling host env (sub, hist))) =
          (case interval sub of
             Weekly \<Rightarrow> setDate host (b_clockUpdate env) (getDate host (b_clockUpdate env) + 7)
           | Monthly \<Rightarrow> setMonth host (b_clockUpdate env) (getMonth host (b_clockUpdate env) + 1)
           | Yearly \<Rightarrow> setFullYear host (b_clockUpdate env) (getFullYear host (b_clockUpdate env) + 1))"
    by (simp add: processSubscriptionBilling_schedule calculateNextBillingDate_def)
  moreover have "\<exists>svc'. processDueSubscriptions host envOf now svc = Some svc'
             \<and> rescheduled host (b_clockUpdate (envOf k)) svc' k
             \<and> storeInvariant host svc'"
    using tick_reschedules [OF assms(2), of host envOf] tick_invariant [OF assms(1), of envOf now]
    by auto
  moreover have "\<forall>new svc'. createSubscription host svc cenv dto = (Inr new, svc')
             \<longrightarrow> scheduleInvariant host new"
    using create_new_invariant by blast
  moreover have "\<forall>tx sub' hist'. processBilling env (sub, hist) = Some (tx, sub', hist')
             \<longrightarrow> scheduleInvariant host sub' = scheduleInvariant host sub"
    using processBilling_invariant by blast
  moreover note updateBillingSchedule_invariant [of host t sub]
  ultimately show ?thesis
    using processSubscriptionBilling_schedule(1) [of host env sub hist]
      processSubscriptionBilling_invariant [of host env sub hist]
      create_invariant [OF assms(1), of cenv dto] cancel_invariant [OF assms(1), of d]
    by simp
qed

theorem billing_reschedules_witness:
  "storeInvariant utcDate exampleStore
   \<and> (''donor1'', exampleSub ''donor1'' Monthly Active 1706659200000 1709337600000)
        \<in> set (getSubscriptionsDueForBilling exampleStore 1709337600000)
   \<and> lastBilledAt (fst (processSubscriptionBilling utcDate (exampleBilling (InnerFault AfterStore))
        (exampleSub ''donor1'' Monthly Active 1706659200000 1709337600000, []))) = Some 1709337600070
   \<and> nextBillingAt (fst (processSubscriptionBilling utcDate (exampleBilling (InnerFault AfterStore))
        (exampleSub ''donor1'' Monthly Active 1706659200000 1709337600000, []))) = 1712016000070
   \<and> (\<exists>svc'. processDueSubscriptions utcDate (\<lambda>_. exampleBilling OuterFault) 1709337600000 exampleStore
          = Some svc'
        \<and> rescheduled utcDate 1709337600070 svc' ''donor1''
        \<and> storeInvariant utcDate svc')"
proof -
  have h1: "storeInvariant utcDate exampleStore"
    by code_simp
  have h2: "(''donor1'', exampleSub ''donor1'' Monthly Active 1706659200000 1709337600000)
        \<in> set (getSubscriptionsDueForBilling exampleStore 1709337600000)"
    by code_simp
  have c: "b_clockUpdate (exampleBilling f) = 1709337600070" for f
    by (simp add: exampleBilling_def)
  have m: "interval (exampleSub ''donor1'' Monthly Active 1706659200000 1709337600000) = Monthly"
    by (simp add: exampleSub_def)
  have n: "setMonth utcDate 1709337600070 (getMonth utcDate 1709337600070 + 1) = 1712016000070"
    by code_simp
  from billing_reschedules [OF h1 h2, of "exampleBilling (InnerFault AfterStore)"
      "exampleSub ''donor1'' Monthly Active 1706659200000 1709337600000" "[]" "\<lambda>_. exampleBilling OuterFault"]
    h1 h2
  show ?thesis by (simp add: c m n)
qed

subsection \<open>Duplicate creation\<close>

text \<open>
  Claim C8. Creating a subscription under a donor id that the store already holds fails
  with the "already exists" condition naming that id, and leaves the whole service as it
  was: the existing record, every other record, the donation log and the analysis
  collaborator, which is not called.
\<close>

theorem create_duplicate_rejected:
  assumes "map_of (subscriptions svc) (c_donorId dto) = Some existing"
  shows "fst (createSubscription host svc env dto) = Inl (AlreadyExists (c_donorId dto))
       \<and> errorMessage (AlreadyExists (c_donorId dto))
           = ''Subscription already exists for donor: '' @ c_donorId dto
       \<and> snd (createSubscription host svc env dto) = svc
       \<and> map_of (subscriptions (snd (createSubscription host svc env dto))) (c_donorId dto)
           = Some existing
       \<and> analyzeCalls (llmService (snd (createSubscription host svc env dto)))
           = analyzeCalls (llmService svc)"
  using assms by (simp add: createSubscription_def errorMessage_def)

theorem create_duplicate_rejected_witness:
  "map_of (subscriptions exampleStore) (c_donorId exampleCreate)
     = Some (exampleSub ''donor1'' Monthly Active 1706659200000 1709337600000)
   \<and> fst (createSubscription utcDate exampleStore exampleCreateEnv exampleCreate)
       = Inl (AlreadyExists ''donor1'')
   \<and> snd (createSubscription utcDate exampleStore exampleCreateEnv exampleCreate) = exampleStore"
proof -
  have h: "map_of (subscriptions exampleStore) (c_donorId exampleCreate)
     = Some (exampleSub ''donor1'' Monthly Active 1706659200000 1709337600000)"
    by (simp add: exampleStore_def exampleCreate_def)
  have d: "c_donorId exampleCreate = ''donor1''"
    by (simp add: exampleCreate_def)
  from create_duplicate_rejected [OF h, of utcDate exampleCreateEnv] h
  show ?thesis by (simp add: d)
qed

subsection \<open>Cancellation\<close>

lemma map_fst_map_entry: "map fst (AList.map_entry k f xs) = map fst xs"
  by (induction xs) auto

text \<open>
  Claim C10. Cancelling an existing active subscription returns and stores that record
  with only its status changed to cancelled (a record update, so every other field keeps
  its value); every other entry of the store, the order of the entries, the donation log
  and the analysis collaborator stay as they were.
\<close>

theorem cancel_frame:
  assumes "map_of (subscriptions svc) d = Some sub" and "status sub = Active"
  shows "fst (cancelSubscription svc d) = Inr (sub\<lparr>status := Cancelled\<rparr>)
       \<and> map_of (subscriptions (snd (cancelSubscription svc d))) d = Some (sub\<lparr>status := Cancelled\<rparr>)
       \<and> (\<forall>k. k \<noteq> d \<longrightarrow>
             map_of (subscriptions (snd (cancelSubscription svc d))) k = map_of (subscriptions svc) k)
       \<and> map fst (subscriptions (snd (cancelSubscription svc d))) = map fst (subscriptions svc)
       \<and> donations (snd (cancelSubscription svc d)) = donations svc
       \<and> llmService (snd (cancelSubscription svc d)) = llmService svc"
  using assms by (simp add: cancelSubscription_def map_of_map_entry map_fst_map_entry)

theorem cancel_frame_witness:
  "map_of (subscriptions exampleStore) ''donor3'' = Some (exampleSub ''donor3'' Yearly Active 1706659200000 1738281600000)
   \<and> status (exampleSub ''donor3'' Yearly Active 1706659200000 1738281600000) = Active
   \<and> fst (cancelSubscription exampleStore ''donor3'')
       = Inr (exampleSub ''donor3'' Yearly Cancelled 1706659200000 1738281600000)
   \<and> map_of (subscriptions (snd (cancelSubscription exampleStore ''donor3''))) ''donor1''
       = Some (exampleSub ''donor1'' Monthly Active 1706659200000 1709337600000)"
proof -
  have h1: "map_of (subscriptions exampleStore) ''donor3''
              = Some (exampleSub ''donor3'' Yearly Active 1706659200000 1738281600000)"
    by (simp add: exampleStore_def)
  have h2: "status (exampleSub ''donor3'' Yearly Active 1706659200000 1738281600000) = Active"
    by (simp add: exampleSub_def)
  have e: "(exampleSub ''donor3'' Yearly Active 1706659200000 1738281600000)\<lparr>status := Cancelled\<rparr>
             = exampleSub ''donor3'' Yearly Cancelled 1706659200000 1738281600000"
    by (simp add: exampleSub_def)
  have o: "map_of (subscriptions exampleStore) ''donor1''
              = Some (exampleSub ''donor1'' Monthly Active 1706659200000 1709337600000)"
    by (simp add: exampleStore_def)
  from cancel_frame [OF h1 h2] h1 h2
  show ?thesis by (simp add: e o)
qed

end
